theory Spec2Isabelle
  imports Complex_Main "HOL-Library.AList"
begin

section \<open>Python values\<close>

text \<open>
  The values \<^verbatim>\<open>json.loads\<close> can produce. A Python dict is an association list in
  insertion order; its keys are strings, as JSON object keys are.
\<close>

datatype pyval =
    PNone
  | PBool bool
  | PInt int
  | PFloat rat
  | PNaN
  | PInfinity bool
  | PStr string
  | PList "pyval list"
  | PDict "(string \<times> pyval) list"

type_synonym pydict = "(string \<times> pyval) list"

text \<open>Python truthiness, as used by \<^verbatim>\<open>if params\<close>.\<close>

fun truthy :: "pyval \<Rightarrow> bool" where
  "truthy PNone = False"
| "truthy (PBool b) = b"
| "truthy (PInt i) = (i \<noteq> 0)"
| "truthy (PFloat q) = (q \<noteq> 0)"
| "truthy PNaN = True"
| "truthy (PInfinity s) = True"
| "truthy (PStr s) = (s \<noteq> [])"
| "truthy (PList xs) = (xs \<noteq> [])"
| "truthy (PDict d) = (d \<noteq> [])"

text \<open>
  Truthiness of a cell that holds a string or NULL (\<^verbatim>\<open>None\<close>):
  \<^verbatim>\<open>elif column_name:\<close> and \<^verbatim>\<open>if row["params_json"]\<close>.
\<close>

fun truthy_str :: "string option \<Rightarrow> bool" where
  "truthy_str None = False"
| "truthy_str (Some s) = (s \<noteq> [])"

text \<open>How an f-string renders a value that is a string or \<^verbatim>\<open>None\<close>.\<close>

fun fmt :: "string option \<Rightarrow> string" where
  "fmt None = ''None''"
| "fmt (Some s) = s"

section \<open>Exceptions\<close>

text \<open>
  An exception carries its class name and its message (\<^verbatim>\<open>str(e)\<close>). \<open>Exc\<close> is an
  instance of \<^verbatim>\<open>Exception\<close>; \<open>BaseExc\<close> is one of the others
  (\<^verbatim>\<open>KeyboardInterrupt\<close>, \<^verbatim>\<open>SystemExit\<close>), which \<^verbatim>\<open>except Exception\<close> does not catch.
  The messages of the exceptions the interpreter itself raises are abridged; nothing
  depends on them.
\<close>

datatype exn = Exc string string | BaseExc string string

fun is_Exception :: "exn \<Rightarrow> bool" where
  "is_Exception (Exc c m) = True"
| "is_Exception (BaseExc c m) = False"

fun exn_str :: "exn \<Rightarrow> string" where
  "exn_str (Exc c m) = m"
| "exn_str (BaseExc c m) = m"

definition none_has_no_lower :: exn where
  "none_has_no_lower = Exc ''AttributeError'' ''NoneType object has no attribute lower''"

definition attribute_name_not_string :: exn where
  "attribute_name_not_string = Exc ''TypeError'' ''attribute name must be string''"

definition not_a_mapping :: exn where
  "not_a_mapping = Exc ''TypeError'' ''object is not a mapping''"

section \<open>The external collaborators\<close>

text \<open>
  A validator handle is identified by what \<^verbatim>\<open>context.get_validator\<close> was asked for:
  datasource name, data asset name, expectation suite name.
\<close>

datatype validator = Validator string string string

fun suite_of :: "validator \<Rightarrow> string" where
  "suite_of (Validator ds asset suite) = suite"

text \<open>
  Every call the script makes into the warehouse connector, the validation framework and
  standard output, with its arguments.
\<close>

datatype call =
    Connect "string option" "string option" "string option"
            "string option" "string option" "string option"
  | ReadSql string
  | ConnClose
  | Print string
  | GetContext
  | AddOrUpdateSnowflake string string
  | GetDatasource string
  | AddTableAsset string string string
  | GetExpectationSuite string
  | AddExpectationSuite string
  | GetValidator string string string
  | GetAttr validator string
  | Invoke validator string "string list" pydict
  | SaveExpectationSuite validator bool
  | AddOrUpdateCheckpoint string validator
  | CheckpointRun string
  | Validate validator
  | BuildDataDocs "string list"
  | OpenDataDocs

text \<open>
  A row of \<^verbatim>\<open>TABLE_VALIDATION_CONFIG\<close>: four text columns and the flag \<^verbatim>\<open>is_enabled\<close>; a
  cell is a value or NULL. A row of the frame \<^verbatim>\<open>pd.read_sql\<close> returns (and of the frame the
  fallback builds) holds its cells under the names of its columns, in their order.
\<close>

record config_row =
  table_name :: "string option"
  column_name :: "string option"
  expectation_type :: "string option"
  params_json :: "string option"
  is_enabled :: "bool option"

type_synonym frame_row = "(string \<times> string option) list"

text \<open>
  The environment of a run. \<open>raises\<close> says, for the calls made so far and the call being
  made, whether it raises; \<open>validation_success\<close> is the \<^verbatim>\<open>success\<close> attribute of what
  \<^verbatim>\<open>validator.validate()\<close> returns; \<open>json_loads\<close> is \<^verbatim>\<open>json.loads\<close>;
  \<open>config_table\<close> holds the rows of the configuration table in the order the warehouse
  returns them; \<open>getenv\<close> is \<^verbatim>\<open>os.getenv\<close> once \<^verbatim>\<open>load_dotenv()\<close> has run; \<open>str_lower\<close> is
  \<^verbatim>\<open>str.lower()\<close>, whose case mapping is the one of Unicode and is not written out here:
  what is proved holds whatever that mapping is.
\<close>

record env =
  getenv :: "string \<Rightarrow> string option"
  raises :: "call list \<Rightarrow> call \<Rightarrow> exn option"
  config_table :: "config_row list"
  json_loads :: "string \<Rightarrow> exn + pyval"
  str_lower :: "string \<Rightarrow> string"
  validation_success :: "call list \<Rightarrow> validator \<Rightarrow> bool"

section \<open>Programs: calls made so far in, outcome and new calls out\<close>

type_synonym 'a prog = "call list \<Rightarrow> (exn + 'a) \<times> call list"

definition ret :: "'a \<Rightarrow> 'a prog" where
  "ret x h = (Inr x, [])"

definition raise_exn :: "exn \<Rightarrow> 'a prog" where
  "raise_exn e h = (Inl e, [])"

definition seq :: "'a prog \<Rightarrow> ('a \<Rightarrow> 'b prog) \<Rightarrow> 'b prog" where
  "seq m f h =
     (case m h of
        (Inl e, es) \<Rightarrow> (Inl e, es)
      | (Inr x, es) \<Rightarrow> (case f x (h @ es) of (r, es') \<Rightarrow> (r, es @ es')))"

text \<open>An external call: it is made (and recorded) whether it raises or not.\<close>

definition ext :: "env \<Rightarrow> call \<Rightarrow> unit prog" where
  "ext env c h =
     (case raises env h c of Some e \<Rightarrow> (Inl e, [c]) | None \<Rightarrow> (Inr (), [c]))"

text \<open>\<^verbatim>\<open>try: m except Exception as e: handler(e)\<close>\<close>

definition try_except :: "'a prog \<Rightarrow> (exn \<Rightarrow> 'a prog) \<Rightarrow> 'a prog" where
  "try_except m handler h =
     (case m h of
        (Inl e, es) \<Rightarrow>
          (if is_Exception e
           then (case handler e (h @ es) of (r, es') \<Rightarrow> (r, es @ es'))
           else (Inl e, es))
      | (Inr x, es) \<Rightarrow> (Inr x, es))"

text \<open>\<^verbatim>\<open>try: m finally: cleanup\<close>: an exception of the cleanup replaces the outcome.\<close>

definition try_finally :: "'a prog \<Rightarrow> unit prog \<Rightarrow> 'a prog" where
  "try_finally m cleanup h =
     (case m h of
        (r, es) \<Rightarrow>
          (case cleanup (h @ es) of
             (Inl e', es') \<Rightarrow> (Inl e', es @ es')
           | (Inr u, es') \<Rightarrow> (r, es @ es')))"

text \<open>\<^verbatim>\<open>for x in xs: body(x)\<close>\<close>

fun for_each :: "('a \<Rightarrow> unit prog) \<Rightarrow> 'a list \<Rightarrow> unit prog" where
  "for_each body [] = ret ()"
| "for_each body (x # xs) = seq (body x) (\<lambda>u. for_each body xs)"

section \<open>The rule translator: \<^verbatim>\<open>build_expectation_function\<close>\<close>

text \<open>
  \<^verbatim>\<open>full_params = {**params, "result_format": "COMPLETE"} if params
                else {"result_format": "COMPLETE"}\<close>
  Unpacking a truthy value that is not a dict raises \<^verbatim>\<open>TypeError\<close>.
\<close>

definition full_params :: "pyval \<Rightarrow> exn + pydict" where
  "full_params params =
     (if truthy params
      then (case params of
              PDict d \<Rightarrow> Inr (AList.update ''result_format'' (PStr ''COMPLETE'') d)
            | _ \<Rightarrow> Inl not_a_mapping)
      else Inr [(''result_format'', PStr ''COMPLETE'')])"

text \<open>
  \<^verbatim>\<open>expectation_method(column_list=full_params["column_list"],
       **{k: v for k, v in full_params.items() if k != "column_list"})\<close>
\<close>

definition column_list_kwargs :: "pydict \<Rightarrow> pydict" where
  "column_list_kwargs fp =
     (''column_list'', the (map_of fp ''column_list''))
       # filter (\<lambda>kv. fst kv \<noteq> ''column_list'') fp"

text \<open>
  The closure \<^verbatim>\<open>expectation_func\<close>; \<^verbatim>\<open>getattr\<close> with a name that is not a string
  raises \<^verbatim>\<open>TypeError\<close> before the validator is asked.
\<close>

definition build_expectation_function ::
  "env \<Rightarrow> string option \<Rightarrow> string option \<Rightarrow> pyval \<Rightarrow> validator \<Rightarrow> unit prog" where
  "build_expectation_function env etype cname params validator =
     (case etype of
        None \<Rightarrow> raise_exn attribute_name_not_string
      | Some name \<Rightarrow>
          seq (ext env (GetAttr validator name)) (\<lambda>u.
          case full_params params of
            Inl e \<Rightarrow> raise_exn e
          | Inr fp \<Rightarrow>
              if ''column_list'' \<in> fst ` set fp
              then ext env (Invoke validator name [] (column_list_kwargs fp))
              else if truthy_str cname
              then ext env (Invoke validator name [the cname] fp)
              else ext env (Invoke validator name [] fp)))"

section \<open>The config loader: \<^verbatim>\<open>load_config_from_snowflake\<close>\<close>

definition config_query :: string where
  "config_query = ''SELECT table_name, column_name, expectation_type, params_json FROM TABLE_VALIDATION_CONFIG WHERE is_enabled = TRUE''"

text \<open>
  How the warehouse reads the text of a query. Only the fragment of SQL the script writes
  its query in is read: \<^verbatim>\<open>SELECT\<close>, a list of distinct text columns separated by commas,
  \<^verbatim>\<open>FROM\<close> the configuration table, \<^verbatim>\<open>WHERE\<close> a flag column \<^verbatim>\<open>=\<close> \<^verbatim>\<open>TRUE\<close> or
  \<^verbatim>\<open>FALSE\<close>, with keywords and names written as the script writes them. Any other text
  is refused. The words of a text are separated by spaces; a comma is a word of its own.
\<close>

fun words_from :: "string \<Rightarrow> string \<Rightarrow> string list" where
  "words_from w [] = (if w = [] then [] else [w])"
| "words_from w (c # cs) =
     (if c = CHR '' '' then (if w = [] then [] else [w]) @ words_from [] cs
      else if c = CHR '','' then (if w = [] then [] else [w]) @ [[c]] @ words_from [] cs
      else words_from (w @ [c]) cs)"

fun select_list :: "string list \<Rightarrow> (string list \<times> string list) option" where
  "select_list (c # sep # rest) =
     (if sep = '','' then
        (case select_list rest of None \<Rightarrow> None | Some (cs, r) \<Rightarrow> Some (c # cs, r))
      else if sep = ''FROM'' then Some ([c], rest)
      else None)"
| "select_list ws = None"

text \<open>The selected columns, the table, the flag column and the truth value compared with.\<close>

definition parse_query :: "string \<Rightarrow> (string list \<times> string \<times> string \<times> bool) option" where
  "parse_query q =
     (case words_from [] q of
        [] \<Rightarrow> None
      | kw # ws \<Rightarrow>
          if kw \<noteq> ''SELECT'' then None
          else (case select_list ws of
                  None \<Rightarrow> None
                | Some (cols, rest) \<Rightarrow>
                    (case rest of
                       [tbl, wh, fcol, eq, lit] \<Rightarrow>
                         if wh = ''WHERE'' \<and> eq = ''='' \<and> (lit = ''TRUE'' \<or> lit = ''FALSE'')
                         then Some (cols, tbl, fcol, lit = ''TRUE'')
                         else None
                     | _ \<Rightarrow> None)))"

definition text_column :: "string \<Rightarrow> (config_row \<Rightarrow> string option) option" where
  "text_column c =
     (if c = ''table_name'' then Some table_name
      else if c = ''column_name'' then Some column_name
      else if c = ''expectation_type'' then Some expectation_type
      else if c = ''params_json'' then Some params_json
      else None)"

definition flag_column :: "string \<Rightarrow> (config_row \<Rightarrow> bool option) option" where
  "flag_column c = (if c = ''is_enabled'' then Some is_enabled else None)"

definition sql_error :: exn where
  "sql_error = Exc ''ProgrammingError'' ''SQL compilation error''"

text \<open>
  The frame a query gives on the rows of the configuration table: the rows whose flag has
  the truth value asked for (a NULL flag has neither), in their order, each with the
  selected columns under their names.
\<close>

definition run_query :: "config_row list \<Rightarrow> string \<Rightarrow> exn + frame_row list" where
  "run_query rows q =
     (case parse_query q of
        None \<Rightarrow> Inl sql_error
      | Some (cols, tbl, fcol, lit) \<Rightarrow>
          if tbl \<noteq> ''TABLE_VALIDATION_CONFIG'' \<or> \<not> distinct cols
             \<or> \<not> list_all (\<lambda>c. text_column c \<noteq> None) cols
          then Inl sql_error
          else (case flag_column fcol of
                  None \<Rightarrow> Inl sql_error
                | Some flag \<Rightarrow>
                    Inr (map (\<lambda>r. map (\<lambda>c. (c, the (text_column c) r)) cols)
                           (filter (\<lambda>r. flag r = Some lit) rows))))"

text \<open>\<^verbatim>\<open>df = pd.read_sql(query, conn)\<close>\<close>

definition read_sql :: "env \<Rightarrow> frame_row list prog" where
  "read_sql env =
     seq (ext env (ReadSql config_query)) (\<lambda>u.
     case run_query (config_table env) config_query of
       Inl e \<Rightarrow> raise_exn e
     | Inr frame \<Rightarrow> ret frame)"

text \<open>A string between double quotes, as it stands in a JSON text.\<close>

definition quoted :: "string \<Rightarrow> string" where
  "quoted s = CHR 0x22 # s @ [CHR 0x22]"

definition between_params_json :: string where
  "between_params_json =
     ''{'' @ quoted ''min_value'' @ '': '' @ quoted ''2025-01-01'' @ '', ''
       @ quoted ''max_value'' @ '': '' @ quoted ''2025-12-02'' @ ''}''"

definition fallback_rows :: "frame_row list" where
  "fallback_rows =
     [[(''table_name'', Some ''TEST_DATES''), (''column_name'', Some ''ID''),
       (''expectation_type'', Some ''expect_column_values_to_not_be_null''),
       (''params_json'', Some ''{}'')],
      [(''table_name'', Some ''TEST_DATES''), (''column_name'', Some ''EVENT_DATE''),
       (''expectation_type'', Some ''expect_column_values_to_be_between''),
       (''params_json'', Some between_params_json)]]"

text \<open>The warning sign and its variation selector (U+26A0 U+FE0F), in UTF-8.\<close>

definition warning_sign :: string where
  "warning_sign = [CHR 0xE2, CHR 0x9A, CHR 0xA0, CHR 0xEF, CHR 0xB8, CHR 0x8F]"

definition load_error_message :: "exn \<Rightarrow> string" where
  "load_error_message e =
     warning_sign @ '' Error loading config from Snowflake: '' @ exn_str e"

type_synonym closure = "validator \<Rightarrow> unit prog"

type_synonym grouped = "(string option \<times> closure list) list"

text \<open>\<^verbatim>\<open>grouped[table].append(f)\<close> on a \<^verbatim>\<open>defaultdict(list)\<close>.\<close>

fun append_to :: "grouped \<Rightarrow> string option \<Rightarrow> closure \<Rightarrow> grouped" where
  "append_to [] t f = [(t, [f])]"
| "append_to ((t', fs) # g) t f =
     (if t' = t then (t', fs @ [f]) # g else (t', fs) # append_to g t f)"

text \<open>\<^verbatim>\<open>row[name]\<close>: a column the frame does not have is a \<^verbatim>\<open>KeyError\<close>.\<close>

definition row_get :: "frame_row \<Rightarrow> string \<Rightarrow> exn + string option" where
  "row_get r name =
     (case map_of r name of None \<Rightarrow> Inl (Exc ''KeyError'' name) | Some cell \<Rightarrow> Inr cell)"

text \<open>\<^verbatim>\<open>json.loads(row["params_json"]) if row["params_json"] else {}\<close>\<close>

definition row_params :: "env \<Rightarrow> string option \<Rightarrow> exn + pyval" where
  "row_params env cell =
     (case cell of
        None \<Rightarrow> Inr (PDict [])
      | Some s \<Rightarrow> if s = [] then Inr (PDict []) else json_loads env s)"

text \<open>The loop over \<^verbatim>\<open>df.iterrows()\<close>.\<close>

fun group_rows :: "env \<Rightarrow> frame_row list \<Rightarrow> grouped \<Rightarrow> exn + grouped" where
  "group_rows env [] g = Inr g"
| "group_rows env (row # rows) g =
     (case row_get row ''table_name'' of
        Inl e \<Rightarrow> Inl e
      | Inr table \<Rightarrow>
     (case row_get row ''column_name'' of
        Inl e \<Rightarrow> Inl e
      | Inr column \<Rightarrow>
     (case row_get row ''params_json'' of
        Inl e \<Rightarrow> Inl e
      | Inr cell \<Rightarrow>
     (case row_params env cell of
        Inl e \<Rightarrow> Inl e
      | Inr params \<Rightarrow>
     (case row_get row ''expectation_type'' of
        Inl e \<Rightarrow> Inl e
      | Inr etype \<Rightarrow>
          group_rows env rows
            (append_to g table (build_expectation_function env etype column params)))))))"

definition connect_call :: "env \<Rightarrow> call" where
  "connect_call env =
     Connect (getenv env ''SNOWFLAKE_USER'') (getenv env ''SNOWFLAKE_PASSWORD'')
             (getenv env ''SNOWFLAKE_ACCOUNT'') (getenv env ''SNOWFLAKE_DATABASE'')
             (getenv env ''SNOWFLAKE_SCHEMA'') (getenv env ''SNOWFLAKE_WAREHOUSE'')"

definition load_frame :: "env \<Rightarrow> frame_row list prog" where
  "load_frame env =
     try_finally
       (try_except (read_sql env)
          (\<lambda>e. seq (ext env (Print (load_error_message e))) (\<lambda>u. ret fallback_rows)))
       (ext env ConnClose)"

definition load_config_from_snowflake :: "env \<Rightarrow> grouped prog" where
  "load_config_from_snowflake env =
     seq (ext env (connect_call env)) (\<lambda>u.
     seq (load_frame env) (\<lambda>df.
     case group_rows env df [] of Inl e \<Rightarrow> raise_exn e | Inr g \<Rightarrow> ret g))"

section \<open>The orchestrator: \<^verbatim>\<open>monitor_all_tables\<close>\<close>

definition datasource_name :: string where
  "datasource_name = ''snowflake_ds''"

definition connection_string :: "env \<Rightarrow> string" where
  "connection_string env =
     ''snowflake://'' @ fmt (getenv env ''SNOWFLAKE_USER'') @ '':''
       @ fmt (getenv env ''SNOWFLAKE_PASSWORD'') @ ''@''
       @ fmt (getenv env ''SNOWFLAKE_ACCOUNT'') @ ''/''
       @ fmt (getenv env ''SNOWFLAKE_DATABASE'') @ ''/''
       @ fmt (getenv env ''SNOWFLAKE_SCHEMA'') @ ''?warehouse=''
       @ fmt (getenv env ''SNOWFLAKE_WAREHOUSE'')"

definition suite_name :: "env \<Rightarrow> string \<Rightarrow> string" where
  "suite_name env t = str_lower env t @ ''_suite''"

definition asset_name :: "env \<Rightarrow> string \<Rightarrow> string \<Rightarrow> string" where
  "asset_name env sch t = str_lower env sch @ ''_'' @ str_lower env t"

definition table_validator :: "env \<Rightarrow> string \<Rightarrow> string \<Rightarrow> validator" where
  "table_validator env sch t =
     Validator datasource_name (asset_name env sch t) (suite_name env t)"

definition verdict :: "bool \<Rightarrow> string \<Rightarrow> string" where
  "verdict ok t =
     ''Validation '' @ (if ok then ''passed'' else ''failed'') @ '' for '' @ t @ ''.''"

text \<open>\<^verbatim>\<open>result = validator.validate()\<close>, of which only \<^verbatim>\<open>result.success\<close> is read.\<close>

definition validate :: "env \<Rightarrow> validator \<Rightarrow> bool prog" where
  "validate env v h =
     (case raises env h (Validate v) of
        Some e \<Rightarrow> (Inl e, [Validate v])
      | None \<Rightarrow> (Inr (validation_success env h v), [Validate v]))"

text \<open>
  The body of the loop over \<^verbatim>\<open>expectations_by_table.items()\<close>. A table name or a schema
  name that is \<^verbatim>\<open>None\<close> has no \<^verbatim>\<open>lower\<close>.
\<close>

definition process_table :: "env \<Rightarrow> string option \<times> closure list \<Rightarrow> unit prog" where
  "process_table env item =
     (case fst item of
        None \<Rightarrow> raise_exn none_has_no_lower
      | Some t \<Rightarrow>
         (case getenv env ''SNOWFLAKE_SCHEMA'' of
            None \<Rightarrow> raise_exn none_has_no_lower
          | Some sch \<Rightarrow>
              seq (ext env (AddTableAsset (asset_name env sch t) t sch)) (\<lambda>u.
              seq (try_except (ext env (GetExpectationSuite (suite_name env t)))
                     (\<lambda>e. ext env (AddExpectationSuite (suite_name env t)))) (\<lambda>u.
              seq (ext env (GetValidator datasource_name (asset_name env sch t) (suite_name env t))) (\<lambda>u.
              seq (for_each (\<lambda>func. func (table_validator env sch t)) (snd item)) (\<lambda>u.
              seq (ext env (SaveExpectationSuite (table_validator env sch t) False)) (\<lambda>u.
              seq (ext env (AddOrUpdateCheckpoint (suite_name env t @ ''_checkpoint'')
                              (table_validator env sch t))) (\<lambda>u.
              seq (ext env (CheckpointRun (suite_name env t @ ''_checkpoint''))) (\<lambda>u.
              seq (validate env (table_validator env sch t)) (\<lambda>ok.
              seq (ext env (BuildDataDocs [''local_site''])) (\<lambda>u.
              seq (ext env OpenDataDocs) (\<lambda>u.
              ext env (Print (verdict ok t))))))))))))))"

definition monitor_all_tables :: "env \<Rightarrow> unit prog" where
  "monitor_all_tables env =
     seq (ext env GetContext) (\<lambda>u.
     seq (load_config_from_snowflake env) (\<lambda>expectations_by_table.
     seq (ext env (AddOrUpdateSnowflake datasource_name (connection_string env))) (\<lambda>u.
     seq (ext env (GetDatasource ''snowflake_ds'')) (\<lambda>u.
     for_each (process_table env) expectations_by_table))))"

section \<open>Notions the properties are stated with\<close>

text \<open>
  A parameter blob can be unpacked into keyword parameters when it is a JSON object, or
  when it is one of the falsy values (then the closure does not unpack it at all); its
  parameters are then those of the object, or none.
\<close>

definition unpackable :: "pyval \<Rightarrow> bool" where
  "unpackable params =
     (case params of
        PDict d \<Rightarrow> True
      | PNone \<Rightarrow> True
      | PBool b \<Rightarrow> \<not> b
      | PInt i \<Rightarrow> i = 0
      | PFloat q \<Rightarrow> q = 0
      | PStr s \<Rightarrow> s = []
      | PList xs \<Rightarrow> xs = []
      | _ \<Rightarrow> False)"

definition params_items :: "pyval \<Rightarrow> pydict" where
  "params_items params = (case params of PDict d \<Rightarrow> d | _ \<Rightarrow> [])"

text \<open>
  The three shapes of a check's invocation, for a rule with column name \<open>cname\<close> and
  parameters \<open>d\<close>: the column list by keyword and no positional argument, when the
  parameters hold a column list; else the column name as the only positional argument,
  when the rule has a column name that is not empty; else keyword parameters only, when
  the column name is NULL or empty.
\<close>

definition call_shape :: "string option \<Rightarrow> pydict \<Rightarrow> string list \<Rightarrow> pydict \<Rightarrow> bool" where
  "call_shape cname d args kw =
     (case map_of d ''column_list'' of
        Some columns \<Rightarrow> args = [] \<and> map_of kw ''column_list'' = Some columns
      | None \<Rightarrow>
          map_of kw ''column_list'' = None
          \<and> (case cname of
                None \<Rightarrow> args = []
              | Some c \<Rightarrow> if c = [] then args = [] else args = [c]))"

section \<open>A sample configuration and sample environments\<close>

definition compound_params_json :: string where
  "compound_params_json =
     ''{'' @ quoted ''column_list'' @ '': ['' @ quoted ''ID'' @ '', '' @ quoted ''DAY'' @ '']}''"

definition between_params :: pydict where
  "between_params = [(''min_value'', PStr ''2025-01-01''), (''max_value'', PStr ''2025-12-02'')]"

definition compound_params :: pydict where
  "compound_params = [(''column_list'', PList [PStr ''ID'', PStr ''DAY''])]"

definition demo_json_loads :: "string \<Rightarrow> exn + pyval" where
  "demo_json_loads s =
     (if s = ''{}'' then Inr (PDict [])
      else if s = between_params_json then Inr (PDict between_params)
      else if s = compound_params_json then Inr (PDict compound_params)
      else Inl (Exc ''JSONDecodeError'' ''Expecting value''))"

definition demo_getenv :: "string \<Rightarrow> string option" where
  "demo_getenv =
     map_of [(''SNOWFLAKE_USER'', ''svc''), (''SNOWFLAKE_PASSWORD'', ''pw''),
             (''SNOWFLAKE_ACCOUNT'', ''acme''), (''SNOWFLAKE_DATABASE'', ''DQ''),
             (''SNOWFLAKE_SCHEMA'', ''PUBLIC''), (''SNOWFLAKE_WAREHOUSE'', ''WH'')]"

definition demo_table :: "config_row list" where
  "demo_table =
     [\<lparr>table_name = Some ''ORDERS'', column_name = Some ''ID'',
       expectation_type = Some ''expect_column_values_to_not_be_null'',
       params_json = Some ''{}'', is_enabled = Some True\<rparr>,
      \<lparr>table_name = Some ''CUSTOMERS'', column_name = Some ''EMAIL'',
       expectation_type = Some ''expect_column_values_to_be_unique'',
       params_json = None, is_enabled = Some False\<rparr>,
      \<lparr>table_name = Some ''CUSTOMERS'', column_name = Some ''EMAIL'',
       expectation_type = Some ''expect_column_values_to_not_be_null'',
       params_json = None, is_enabled = Some True\<rparr>,
      \<lparr>table_name = Some ''ORDERS'', column_name = None,
       expectation_type = Some ''expect_compound_columns_to_be_unique'',
       params_json = Some compound_params_json, is_enabled = Some True\<rparr>,
      \<lparr>table_name = Some ''ORDERS'', column_name = Some ''DAY'',
       expectation_type = Some ''expect_column_values_to_be_between'',
       params_json = Some between_params_json, is_enabled = None\<rparr>]"

text \<open>No suite exists before the run: fetching one raises until it has been added.\<close>

definition demo_raises :: "call list \<Rightarrow> call \<Rightarrow> exn option" where
  "demo_raises h c =
     (case c of
        GetExpectationSuite s \<Rightarrow>
          if AddExpectationSuite s \<in> set h then None
          else Some (Exc ''DataContextError'' ''expectation_suite not found'')
      | _ \<Rightarrow> None)"

text \<open>
  \<^verbatim>\<open>str.lower()\<close> on text of ASCII characters, which is all the sample environments hold.
\<close>

definition ascii_lower :: "string \<Rightarrow> string" where
  "ascii_lower s =
     map (\<lambda>c. case map_of (zip ''ABCDEFGHIJKLMNOPQRSTUVWXYZ'' ''abcdefghijklmnopqrstuvwxyz'') c of
                 None \<Rightarrow> c
               | Some l \<Rightarrow> l) s"

definition demo_validator :: validator where
  "demo_validator = Validator ''snowflake_ds'' ''public_orders'' ''orders_suite''"

text \<open>The validation of table \<^verbatim>\<open>ORDERS\<close> succeeds and no other does.\<close>

definition demo_env :: env where
  "demo_env =
     \<lparr>getenv = demo_getenv, raises = demo_raises, config_table = demo_table,
      json_loads = demo_json_loads, str_lower = ascii_lower,
      validation_success = (\<lambda>h v. v = demo_validator)\<rparr>"

text \<open>The warehouse cannot be reached: \<^verbatim>\<open>connect\<close> raises.\<close>

definition offline_env :: env where
  "offline_env =
     demo_env\<lparr>raises := (\<lambda>h c. case c of
        Connect u p a d s w \<Rightarrow> Some (Exc ''DatabaseError'' ''could not connect'')
      | _ \<Rightarrow> None)\<rparr>"

text \<open>The connection is made and the configuration query raises.\<close>

definition query_failing_env :: env where
  "query_failing_env =
     demo_env\<lparr>raises := (\<lambda>h c. case c of
        ReadSql q \<Rightarrow> Some (Exc ''ProgrammingError'' ''table does not exist'')
      | _ \<Rightarrow> None)\<rparr>"

definition basic_params :: pydict where
  "basic_params = [(''result_format'', PStr ''BASIC''), (''mostly'', PInt 1)]"

text \<open>
  \<^verbatim>\<open>json.loads\<close> reads the two parameter blobs of the fallback rows as Python's does.
\<close>

definition parses_fallback :: "env \<Rightarrow> bool" where
  "parses_fallback env =
     (json_loads env ''{}'' = Inr (PDict [])
      \<and> json_loads env between_params_json = Inr (PDict between_params))"

text \<open>
  The parameter blob of a configuration row is NULL, empty or a text \<^verbatim>\<open>json.loads\<close>
  accepts; the rule of such a row, translated: its kind, its column and the parameters
  its blob stands for; the row of the frame that holds the four text columns of a
  configuration row; the closures a mapping holds for a table.
\<close>

definition parses :: "env \<Rightarrow> config_row \<Rightarrow> bool" where
  "parses env r =
     (case params_json r of
        None \<Rightarrow> True
      | Some s \<Rightarrow> s = [] \<or> (case json_loads env s of Inl e \<Rightarrow> False | Inr p \<Rightarrow> True))"

definition translated :: "env \<Rightarrow> config_row \<Rightarrow> closure" where
  "translated env r =
     build_expectation_function env (expectation_type r) (column_name r)
       (case params_json r of
          None \<Rightarrow> PDict []
        | Some s \<Rightarrow>
            if s = [] then PDict []
            else (case json_loads env s of Inl e \<Rightarrow> PNone | Inr p \<Rightarrow> p))"

definition frame_of :: "config_row \<Rightarrow> frame_row" where
  "frame_of r =
     [(''table_name'', table_name r), (''column_name'', column_name r),
      (''expectation_type'', expectation_type r), (''params_json'', params_json r)]"

definition rules_of :: "grouped \<Rightarrow> string option \<Rightarrow> closure list" where
  "rules_of g t = (case map_of g t of None \<Rightarrow> [] | Some fs \<Rightarrow> fs)"

text \<open>
  The calls \<open>evs\<close> are those of applying the closures \<open>fs\<close> to the validator one after
  the other, each returning, starting after the calls \<open>h\<close>.
\<close>

fun applied_in_order :: "closure list \<Rightarrow> validator \<Rightarrow> call list \<Rightarrow> call list \<Rightarrow> bool" where
  "applied_in_order [] v h evs = (evs = [])"
| "applied_in_order (f # fs) v h evs =
     (case f v h of
        (Inl e, es) \<Rightarrow> False
      | (Inr u, es) \<Rightarrow>
          take (length es) evs = es
          \<and> applied_in_order fs v (h @ es) (drop (length es) evs))"

text \<open>
  The calls \<open>evs\<close> are those of the closures \<open>fs\<close>, each applied once to the validator
  \<open>v\<close> in their order, each making one lookup of a check on \<open>v\<close> and one invocation of
  that check on \<open>v\<close>, and returning.
\<close>

fun rules_applied_once :: "closure list \<Rightarrow> validator \<Rightarrow> call list \<Rightarrow> call list \<Rightarrow> bool" where
  "rules_applied_once [] v h evs = (evs = [])"
| "rules_applied_once (f # fs) v h evs =
     (case evs of
        lookup # invocation # rest \<Rightarrow>
          (\<exists>name args kw. lookup = GetAttr v name \<and> invocation = Invoke v name args kw)
          \<and> f v h = (Inr (), [lookup, invocation])
          \<and> rules_applied_once fs v (h @ [lookup, invocation]) rest
      | _ \<Rightarrow> False)"

text \<open>
  The calls \<open>seg\<close> are the steps of the orchestrator for table \<open>t\<close> in schema \<open>sch\<close>, with
  rules \<open>fs\<close>, made after the calls \<open>h\<close>: the asset, the suite (fetched, and added if the
  fetch failed), the validator, the rules (as \<open>applied\<close> says), the saving, the
  checkpoint added and run, the validation, the documentation built and opened, and the
  line printed: passed when the validation succeeded, failed when it did not.
\<close>

definition table_steps_with ::
  "(closure list \<Rightarrow> validator \<Rightarrow> call list \<Rightarrow> call list \<Rightarrow> bool) \<Rightarrow>
   env \<Rightarrow> call list \<Rightarrow> string \<Rightarrow> string \<Rightarrow> closure list \<Rightarrow> call list \<Rightarrow> bool" where
  "table_steps_with applied env h sch t fs seg =
     (\<exists>asset suite v suite_part rule_part ok.
        asset = str_lower env sch @ ''_'' @ str_lower env t
        \<and> suite = str_lower env t @ ''_suite''
        \<and> v = Validator ''snowflake_ds'' asset suite
        \<and> seg = AddTableAsset asset t sch # suite_part
              @ GetValidator ''snowflake_ds'' asset suite # rule_part
              @ [SaveExpectationSuite v False,
                 AddOrUpdateCheckpoint (suite @ ''_checkpoint'') v,
                 CheckpointRun (suite @ ''_checkpoint''),
                 Validate v,
                 BuildDataDocs [''local_site''],
                 OpenDataDocs,
                 Print (''Validation '' @ (if ok then ''passed'' else ''failed'')
                          @ '' for '' @ t @ ''.'')]
        \<and> ok = validation_success env
                 (h @ AddTableAsset asset t sch # suite_part
                    @ GetValidator ''snowflake_ds'' asset suite # rule_part
                    @ [SaveExpectationSuite v False,
                       AddOrUpdateCheckpoint (suite @ ''_checkpoint'') v,
                       CheckpointRun (suite @ ''_checkpoint'')]) v
        \<and> (suite_part = [GetExpectationSuite suite]
             \<or> suite_part = [GetExpectationSuite suite, AddExpectationSuite suite])
        \<and> applied fs v
             (h @ AddTableAsset asset t sch # suite_part
                @ [GetValidator ''snowflake_ds'' asset suite])
             rule_part)"

definition table_steps ::
  "env \<Rightarrow> call list \<Rightarrow> string \<Rightarrow> string \<Rightarrow> closure list \<Rightarrow> call list \<Rightarrow> bool" where
  "table_steps = table_steps_with applied_in_order"

text \<open>
  The segments \<open>segs\<close> are one pass over the loaded mapping: one segment for each table,
  in the order of the mapping, each the steps of its table with every rule of the table
  applied once to the table's validator.
\<close>

fun passes :: "env \<Rightarrow> call list \<Rightarrow> grouped \<Rightarrow> call list list \<Rightarrow> bool" where
  "passes env h [] segs = (segs = [])"
| "passes env h (item # g) segs =
     (case segs of
        [] \<Rightarrow> False
      | seg # rest \<Rightarrow>
          (case fst item of
             None \<Rightarrow> False
           | Some t \<Rightarrow>
               (case getenv env ''SNOWFLAKE_SCHEMA'' of
                  None \<Rightarrow> False
                | Some sch \<Rightarrow> table_steps_with rules_applied_once env h sch t (snd item) seg))
          \<and> passes env (h @ seg) g rest)"

text \<open>The run of the orchestrator on the sample environment.\<close>

definition demo_grouped :: grouped where
  "demo_grouped =
     [(Some ''ORDERS'',
       [build_expectation_function demo_env (Some ''expect_column_values_to_not_be_null'')
          (Some ''ID'') (PDict []),
        build_expectation_function demo_env (Some ''expect_compound_columns_to_be_unique'')
          None (PDict compound_params)]),
      (Some ''CUSTOMERS'',
       [build_expectation_function demo_env (Some ''expect_column_values_to_not_be_null'')
          (Some ''EMAIL'') (PDict [])])]"

definition customers_validator :: validator where
  "customers_validator = Validator ''snowflake_ds'' ''public_customers'' ''customers_suite''"

definition demo_prefix :: "call list" where
  "demo_prefix =
     [GetContext,
      Connect (Some ''svc'') (Some ''pw'') (Some ''acme'') (Some ''DQ'') (Some ''PUBLIC'')
        (Some ''WH''),
      ReadSql config_query,
      ConnClose,
      AddOrUpdateSnowflake ''snowflake_ds'' ''snowflake://svc:pw@acme/DQ/PUBLIC?warehouse=WH'',
      GetDatasource ''snowflake_ds'']"

definition demo_orders_trace :: "call list" where
  "demo_orders_trace =
     [AddTableAsset ''public_orders'' ''ORDERS'' ''PUBLIC'',
      GetExpectationSuite ''orders_suite'',
      AddExpectationSuite ''orders_suite'',
      GetValidator ''snowflake_ds'' ''public_orders'' ''orders_suite'',
      GetAttr demo_validator ''expect_column_values_to_not_be_null'',
      Invoke demo_validator ''expect_column_values_to_not_be_null'' [''ID'']
        [(''result_format'', PStr ''COMPLETE'')],
      GetAttr demo_validator ''expect_compound_columns_to_be_unique'',
      Invoke demo_validator ''expect_compound_columns_to_be_unique'' []
        [(''column_list'', PList [PStr ''ID'', PStr ''DAY'']),
         (''result_format'', PStr ''COMPLETE'')],
      SaveExpectationSuite demo_validator False,
      AddOrUpdateCheckpoint ''orders_suite_checkpoint'' demo_validator,
      CheckpointRun ''orders_suite_checkpoint'',
      Validate demo_validator,
      BuildDataDocs [''local_site''],
      OpenDataDocs,
      Print ''Validation passed for ORDERS.'']"

definition demo_customers_trace :: "call list" where
  "demo_customers_trace =
     [AddTableAsset ''public_customers'' ''CUSTOMERS'' ''PUBLIC'',
      GetExpectationSuite ''customers_suite'',
      AddExpectationSuite ''customers_suite'',
      GetValidator ''snowflake_ds'' ''public_customers'' ''customers_suite'',
      GetAttr customers_validator ''expect_column_values_to_not_be_null'',
      Invoke customers_validator ''expect_column_values_to_not_be_null'' [''EMAIL'']
        [(''result_format'', PStr ''COMPLETE'')],
      SaveExpectationSuite customers_validator False,
      AddOrUpdateCheckpoint ''customers_suite_checkpoint'' customers_validator,
      CheckpointRun ''customers_suite_checkpoint'',
      Validate customers_validator,
      BuildDataDocs [''local_site''],
      OpenDataDocs,
      Print ''Validation failed for CUSTOMERS.'']"

definition demo_trace :: "call list" where
  "demo_trace = demo_prefix @ demo_orders_trace @ demo_customers_trace"

text \<open>Only the suite of table \<^verbatim>\<open>ORDERS\<close> is missing, and nothing else raises.\<close>

definition orders_suite_missing_env :: env where
  "orders_suite_missing_env =
     demo_env\<lparr>raises := (\<lambda>h c.
        if c = GetExpectationSuite ''orders_suite''
           \<and> AddExpectationSuite ''orders_suite'' \<notin> set h
        then Some (Exc ''DataContextError'' ''expectation_suite orders_suite not found'')
        else None)\<rparr>"

section \<open>Counting operations\<close>

text \<open>The operation a call performs: the call without its arguments.\<close>

datatype operation =
    Op_Connect | Op_ReadSql | Op_ConnClose | Op_Print | Op_GetContext
  | Op_AddOrUpdateSnowflake | Op_GetDatasource | Op_AddTableAsset
  | Op_GetExpectationSuite | Op_AddExpectationSuite | Op_GetValidator
  | Op_GetAttr | Op_Invoke | Op_SaveExpectationSuite | Op_AddOrUpdateCheckpoint
  | Op_CheckpointRun | Op_Validate | Op_BuildDataDocs | Op_OpenDataDocs

fun operation_of :: "call \<Rightarrow> operation" where
  "operation_of (Connect u p a d s w) = Op_Connect"
| "operation_of (ReadSql q) = Op_ReadSql"
| "operation_of ConnClose = Op_ConnClose"
| "operation_of (Print s) = Op_Print"
| "operation_of GetContext = Op_GetContext"
| "operation_of (AddOrUpdateSnowflake n c) = Op_AddOrUpdateSnowflake"
| "operation_of (GetDatasource n) = Op_GetDatasource"
| "operation_of (AddTableAsset a t s) = Op_AddTableAsset"
| "operation_of (GetExpectationSuite s) = Op_GetExpectationSuite"
| "operation_of (AddExpectationSuite s) = Op_AddExpectationSuite"
| "operation_of (GetValidator d a s) = Op_GetValidator"
| "operation_of (GetAttr v n) = Op_GetAttr"
| "operation_of (Invoke v n args kw) = Op_Invoke"
| "operation_of (SaveExpectationSuite v b) = Op_SaveExpectationSuite"
| "operation_of (AddOrUpdateCheckpoint n v) = Op_AddOrUpdateCheckpoint"
| "operation_of (CheckpointRun n) = Op_CheckpointRun"
| "operation_of (Validate v) = Op_Validate"
| "operation_of (BuildDataDocs s) = Op_BuildDataDocs"
| "operation_of OpenDataDocs = Op_OpenDataDocs"

text \<open>How often an operation occurs among the calls of a run.\<close>

definition occurrences :: "operation \<Rightarrow> call list \<Rightarrow> nat" where
  "occurrences k tr = length (filter (\<lambda>c. operation_of c = k) tr)"

text \<open>The number of rules of a loaded mapping, over all its tables.\<close>

definition rule_count :: "grouped \<Rightarrow> nat" where
  "rule_count g = sum_list (map (\<lambda>item. length (snd item)) g)"

text \<open>
  How often a single pass can perform an operation for one table with \<open>n\<close> rules, and in
  a whole run over the loaded mapping \<open>g\<close>.
\<close>

definition table_budget :: "nat \<Rightarrow> operation \<Rightarrow> nat" where
  "table_budget n k =
     (if k \<in> set [Op_AddTableAsset, Op_GetExpectationSuite, Op_AddExpectationSuite,
                   Op_GetValidator, Op_SaveExpectationSuite, Op_AddOrUpdateCheckpoint,
                   Op_CheckpointRun, Op_Validate, Op_BuildDataDocs, Op_OpenDataDocs, Op_Print]
      then 1
      else if k \<in> set [Op_GetAttr, Op_Invoke] then n
      else 0)"

definition run_budget :: "grouped \<Rightarrow> operation \<Rightarrow> nat" where
  "run_budget g k =
     (if k \<in> set [Op_GetContext, Op_Connect, Op_ReadSql, Op_ConnClose,
                   Op_AddOrUpdateSnowflake, Op_GetDatasource]
      then 1
      else if k = Op_Print then 1 + length g
      else if k \<in> set [Op_GetAttr, Op_Invoke] then rule_count g
      else length g)"

text \<open>The operations a run performs before it turns to the tables.\<close>

definition before_tables :: "call \<Rightarrow> bool" where
  "before_tables c =
     (operation_of c \<in> set [Op_GetContext, Op_Connect, Op_ReadSql, Op_Print, Op_ConnClose,
                              Op_AddOrUpdateSnowflake, Op_GetDatasource])"

text \<open>The tables whose processing was started, in the order of the calls.\<close>

fun tables_started :: "call list \<Rightarrow> string list" where
  "tables_started [] = []"
| "tables_started (AddTableAsset a t s # cs) = t # tables_started cs"
| "tables_started (c # cs) = tables_started cs"

text \<open>A closure made by the rule translator.\<close>

definition built :: "env \<Rightarrow> closure \<Rightarrow> bool" where
  "built env f = (\<exists>etype cname params. f = build_expectation_function env etype cname params)"

text \<open>The contribution of one call of operation \<open>k'\<close> to the count of operation \<open>k\<close>.\<close>

definition wt :: "operation \<Rightarrow> operation \<Rightarrow> nat" where
  "wt k k' = (if k' = k then 1 else 0)"

text \<open>
  The suite a call works on, for the calls that work on one; and the calls that work on
  no suite but \<open>s\<close>.
\<close>

fun suite_used :: "call \<Rightarrow> string option" where
  "suite_used (GetExpectationSuite s) = Some s"
| "suite_used (AddExpectationSuite s) = Some s"
| "suite_used (GetValidator d a s) = Some s"
| "suite_used (GetAttr v n) = Some (suite_of v)"
| "suite_used (Invoke v n args kw) = Some (suite_of v)"
| "suite_used (SaveExpectationSuite v b) = Some (suite_of v)"
| "suite_used (AddOrUpdateCheckpoint n v) = Some (suite_of v)"
| "suite_used (Validate v) = Some (suite_of v)"
| "suite_used c = None"

definition only_suite :: "string \<Rightarrow> call \<Rightarrow> bool" where
  "only_suite s c = (case suite_used c of None \<Rightarrow> True | Some s' \<Rightarrow> s' = s)"

text \<open>
  A row the run can carry through: its table name and expectation kind are not NULL and
  its parameter blob is read as something that can be unpacked. An environment in which
  no call raises. A closure that returns whatever the validator and the calls before.
\<close>

definition translatable :: "env \<Rightarrow> config_row \<Rightarrow> bool" where
  "translatable env r =
     (table_name r \<noteq> None \<and> expectation_type r \<noteq> None
      \<and> (case params_json r of
            None \<Rightarrow> True
          | Some s \<Rightarrow>
              s = [] \<or> (case json_loads env s of Inl e \<Rightarrow> False | Inr p \<Rightarrow> unpackable p)))"

definition quiet :: "env \<Rightarrow> bool" where
  "quiet env = (\<forall>h c. raises env h c = None)"

definition returns_always :: "closure \<Rightarrow> bool" where
  "returns_always f = (\<forall>v h. fst (f v h) = Inr ())"

text \<open>
  Further sample environments: no call raises; the validator lacks a check; a parameter
  blob is not JSON; the query is interrupted.
\<close>

definition quiet_env :: env where
  "quiet_env = demo_env\<lparr>raises := (\<lambda>h c. None)\<rparr>"

definition no_such_check_env :: env where
  "no_such_check_env =
     demo_env\<lparr>raises := (\<lambda>h c. case c of
        GetAttr v n \<Rightarrow>
          if n = ''expect_nothing''
          then Some (Exc ''AttributeError'' ''Validator has no attribute expect_nothing'')
          else None
      | _ \<Rightarrow> None)\<rparr>"

definition malformed_env :: env where
  "malformed_env =
     demo_env\<lparr>config_table :=
       [\<lparr>table_name = Some ''ORDERS'', column_name = Some ''ID'',
         expectation_type = Some ''expect_column_values_to_not_be_null'',
         params_json = Some ''{broken'', is_enabled = Some True\<rparr>]\<rparr>"

definition interrupted_env :: env where
  "interrupted_env =
     demo_env\<lparr>raises := (\<lambda>h c. case c of
        ReadSql q \<Rightarrow> Some (BaseExc ''KeyboardInterrupt'' [])
      | _ \<Rightarrow> None)\<rparr>"

text \<open>Two configured tables whose names differ in letter case only.\<close>

definition case_clash_env :: env where
  "case_clash_env =
     demo_env\<lparr>config_table :=
       [\<lparr>table_name = Some ''ORDERS'', column_name = Some ''ID'',
         expectation_type = Some ''expect_column_values_to_not_be_null'',
         params_json = None, is_enabled = Some True\<rparr>,
        \<lparr>table_name = Some ''orders'', column_name = Some ''ID'',
         expectation_type = Some ''expect_column_values_to_be_unique'',
         params_json = None, is_enabled = Some True\<rparr>]\<rparr>"


section \<open>Basic facts about programs\<close>

lemma ext_events [simp]: "snd (ext env c h) = [c]"
  by (simp add: ext_def split: option.splits)

lemma seq_ext_ok:
  "raises env h c = None \<Longrightarrow>
   seq (ext env c) f h = (fst (f () (h @ [c])), c # snd (f () (h @ [c])))"
  by (simp add: seq_def ext_def split: prod.splits)

lemma seq_ok:
  "m h = (Inr x, es) \<Longrightarrow> seq m f h = (fst (f x (h @ es)), es @ snd (f x (h @ es)))"
  by (simp add: seq_def split: prod.splits)

lemma seq_fail: "m h = (Inl e, es) \<Longrightarrow> seq m f h = (Inl e, es)"
  by (simp add: seq_def)

lemma keys_iff: "k \<in> fst ` set d \<longleftrightarrow> map_of d k \<noteq> None"
  by (simp add: map_of_eq_None_iff)

section \<open>The rule translator\<close>

lemma full_params_unpackable:
  "unpackable params \<Longrightarrow>
   full_params params =
     Inr (AList.update ''result_format'' (PStr ''COMPLETE'') (params_items params))"
  by (cases params) (auto simp: unpackable_def params_items_def full_params_def)

lemma map_of_column_list_kwargs:
  "map_of (column_list_kwargs fp) k =
     (if k = ''column_list'' then Some (the (map_of fp ''column_list'')) else map_of fp k)"
  by (induction fp) (auto simp: column_list_kwargs_def)

lemma column_list_branch:
  assumes "''column_list'' \<in> fst ` set d"
  shows "build_expectation_function env (Some name) cname (PDict d) v =
           seq (ext env (GetAttr v name)) (\<lambda>u. ext env (Invoke v name []
             (column_list_kwargs (AList.update ''result_format'' (PStr ''COMPLETE'') d))))"
proof -
  from assms have ne: "d \<noteq> []" by auto
  from assms
  have "''column_list'' \<in> fst ` set (AList.update ''result_format'' (PStr ''COMPLETE'') d)"
    by (simp add: keys_iff update_conv')
  with ne show ?thesis
    by (simp add: build_expectation_function_def full_params_def)
qed





text \<open>
  C9. When the parameter blob of a rule has the key \<^verbatim>\<open>column_list\<close>, the closure does not
  depend on the rule's column name: the closures built with any two column names are
  equal. When the validator has the check, the closure looks it up and invokes it once,
  with no positional argument and with that column list by keyword.
\<close>

theorem column_list_takes_precedence:
  assumes "''column_list'' \<in> fst ` set d"
  shows "build_expectation_function env etype cname (PDict d)
           = build_expectation_function env etype cname' (PDict d)
       \<and> (raises env h (GetAttr v name) = None \<longrightarrow>
            (\<exists>kw. snd (build_expectation_function env (Some name) cname (PDict d) v h)
                    = [GetAttr v name, Invoke v name [] kw]
                 \<and> map_of kw ''column_list'' = map_of d ''column_list''))"
proof
  show "build_expectation_function env etype cname (PDict d)
          = build_expectation_function env etype cname' (PDict d)"
  proof (cases etype)
    case None
    then show ?thesis by (simp add: build_expectation_function_def fun_eq_iff)
  next
    case (Some name)
    then show ?thesis using assms by (simp add: fun_eq_iff column_list_branch)
  qed
next
  from assms have "map_of d ''column_list'' \<noteq> None"
    by (simp add: keys_iff)
  then show "raises env h (GetAttr v name) = None \<longrightarrow>
            (\<exists>kw. snd (build_expectation_function env (Some name) cname (PDict d) v h)
                    = [GetAttr v name, Invoke v name [] kw]
                 \<and> map_of kw ''column_list'' = map_of d ''column_list'')"
    using assms
    by (auto simp: column_list_branch seq_ext_ok map_of_column_list_kwargs update_conv')
qed

theorem column_list_takes_precedence_witness:
  "''column_list'' \<in> fst ` set compound_params
   \<and> build_expectation_function demo_env (Some ''expect_compound_columns_to_be_unique'')
         (Some ''ID'') (PDict compound_params)
       = build_expectation_function demo_env (Some ''expect_compound_columns_to_be_unique'')
           None (PDict compound_params)
   \<and> (\<exists>kw. snd (build_expectation_function demo_env
                     (Some ''expect_compound_columns_to_be_unique'')
                     (Some ''ID'') (PDict compound_params) demo_validator [])
              = [GetAttr demo_validator ''expect_compound_columns_to_be_unique'',
                 Invoke demo_validator ''expect_compound_columns_to_be_unique'' [] kw]
            \<and> map_of kw ''column_list'' = Some (PList [PStr ''ID'', PStr ''DAY'']))"
proof -
  have a: "''column_list'' \<in> fst ` set compound_params"
    by (simp add: compound_params_def)
  have b: "raises demo_env [] (GetAttr demo_validator ''expect_compound_columns_to_be_unique'')
             = None"
    by (simp add: demo_env_def demo_raises_def)
  have c: "map_of compound_params ''column_list'' = Some (PList [PStr ''ID'', PStr ''DAY''])"
    by (simp add: compound_params_def)
  note t = column_list_takes_precedence [OF a, of demo_env
      "Some ''expect_compound_columns_to_be_unique''" "Some ''ID''" None "[]" demo_validator
      "''expect_compound_columns_to_be_unique''"]
  from t have d: "build_expectation_function demo_env
         (Some ''expect_compound_columns_to_be_unique'') (Some ''ID'') (PDict compound_params)
       = build_expectation_function demo_env (Some ''expect_compound_columns_to_be_unique'')
           None (PDict compound_params)"
    by (rule conjunct1)
  from t b have "\<exists>kw. snd (build_expectation_function demo_env
                     (Some ''expect_compound_columns_to_be_unique'')
                     (Some ''ID'') (PDict compound_params) demo_validator [])
              = [GetAttr demo_validator ''expect_compound_columns_to_be_unique'',
                 Invoke demo_validator ''expect_compound_columns_to_be_unique'' [] kw]
            \<and> map_of kw ''column_list'' = map_of compound_params ''column_list''"
    by blast
  with c have e: "\<exists>kw. snd (build_expectation_function demo_env
                     (Some ''expect_compound_columns_to_be_unique'')
                     (Some ''ID'') (PDict compound_params) demo_validator [])
              = [GetAttr demo_validator ''expect_compound_columns_to_be_unique'',
                 Invoke demo_validator ''expect_compound_columns_to_be_unique'' [] kw]
            \<and> map_of kw ''column_list'' = Some (PList [PStr ''ID'', PStr ''DAY''])"
    by (simp only:)
  from a d e show ?thesis by (intro conjI)
qed

section \<open>The config loader\<close>

lemma map_of_append_to:
  "map_of (append_to g t f) t' =
     (if t' = t then Some (rules_of g t @ [f]) else map_of g t')"
  by (induction g t f rule: append_to.induct) (auto simp: rules_of_def)

lemma keys_append_to: "fst ` set (append_to g t f) = insert t (fst ` set g)"
  by (induction g t f rule: append_to.induct) auto

lemma distinct_append_to:
  "distinct (map fst g) \<Longrightarrow> distinct (map fst (append_to g t f))"
proof (induction g t f rule: append_to.induct)
  case (1 t f)
  then show ?case by simp
next
  case (2 t' fs g t f)
  then show ?case using keys_append_to [of g t f] by auto
qed

lemma filter_other_table:
  "t \<notin> table_name ` set rs \<Longrightarrow> filter (\<lambda>r. table_name r = t) rs = []"
  by (induction rs) auto

lemma words_of_config_query:
  "words_from [] config_query =
     [''SELECT'', ''table_name'', '','', ''column_name'', '','', ''expectation_type'', '','',
      ''params_json'', ''FROM'', ''TABLE_VALIDATION_CONFIG'', ''WHERE'', ''is_enabled'', ''='',
      ''TRUE'']"
  by (simp add: config_query_def)

lemma parse_config_query:
  "parse_query config_query =
     Some ([''table_name'', ''column_name'', ''expectation_type'', ''params_json''],
           ''TABLE_VALIDATION_CONFIG'', ''is_enabled'', True)"
  by (simp add: parse_query_def words_of_config_query)

lemma run_config_query:
  "run_query rows config_query =
     Inr (map frame_of (filter (\<lambda>r. is_enabled r = Some True) rows))"
  by (simp add: run_query_def parse_config_query text_column_def flag_column_def frame_of_def)

lemma group_rows_step:
  "parses env r \<Longrightarrow>
   group_rows env (frame_of r # frs) g =
     group_rows env frs (append_to g (table_name r) (translated env r))"
  by (auto simp: parses_def frame_of_def row_get_def row_params_def translated_def
      split: option.splits sum.splits)

lemma group_rows_ok:
  assumes "list_all (parses env) rs"
  shows "\<exists>g'. group_rows env (map frame_of rs) g = Inr g'
     \<and> (distinct (map fst g) \<longrightarrow> distinct (map fst g'))
     \<and> (\<forall>t. map_of g' t =
          (if t \<in> table_name ` set rs
           then Some (rules_of g t @ map (translated env) (filter (\<lambda>r. table_name r = t) rs))
           else map_of g t))"
  using assms
proof (induction rs arbitrary: g)
  case Nil
  then show ?case by simp
next
  case (Cons r rs)
  from Cons.prems have r: "parses env r" and rest: "list_all (parses env) rs"
    by simp_all
  let ?g1 = "append_to g (table_name r) (translated env r)"
  from Cons.IH [OF rest, of ?g1] obtain g' where
    g': "group_rows env (map frame_of rs) ?g1 = Inr g'"
    and d: "distinct (map fst ?g1) \<longrightarrow> distinct (map fst g')"
    and m: "\<forall>t. map_of g' t =
          (if t \<in> table_name ` set rs
           then Some (rules_of ?g1 t @ map (translated env) (filter (\<lambda>r. table_name r = t) rs))
           else map_of ?g1 t)"
    by blast
  have "group_rows env (map frame_of (r # rs)) g = Inr g'"
    by (simp only: list.map group_rows_step [OF r] g')
  moreover have "distinct (map fst g) \<longrightarrow> distinct (map fst g')"
    using d distinct_append_to by blast
  moreover have "\<forall>t. map_of g' t =
          (if t \<in> table_name ` set (r # rs)
           then Some (rules_of g t @ map (translated env) (filter (\<lambda>r. table_name r = t) (r # rs)))
           else map_of g t)"
    using m by (simp add: map_of_append_to rules_of_def filter_other_table)
  ultimately show ?case by blast
qed

lemma load_frame_query_ok:
  assumes "raises env h (ReadSql config_query) = None"
      and "raises env (h @ [ReadSql config_query]) ConnClose = None"
  shows "load_frame env h =
           (Inr (map frame_of (filter (\<lambda>r. is_enabled r = Some True) (config_table env))),
            [ReadSql config_query, ConnClose])"
  using assms
  by (simp add: load_frame_def try_finally_def try_except_def read_sql_def seq_ext_ok ret_def
      ext_def run_config_query)

lemma load_frame_query_fails:
  assumes "raises env h (ReadSql config_query) = Some (Exc c m)"
      and "raises env (h @ [ReadSql config_query]) (Print (load_error_message (Exc c m))) = None"
      and "raises env (h @ [ReadSql config_query, Print (load_error_message (Exc c m))]) ConnClose
             = None"
  shows "load_frame env h =
           (Inr fallback_rows,
            [ReadSql config_query, Print (load_error_message (Exc c m)), ConnClose])"
  using assms
  by (simp add: load_frame_def try_finally_def try_except_def read_sql_def seq_def ret_def
      ext_def)

lemma query_failing_env_simps:
  "getenv query_failing_env = demo_getenv"
  "json_loads query_failing_env = demo_json_loads"
  "raises query_failing_env h c =
     (case c of ReadSql q \<Rightarrow> Some (Exc ''ProgrammingError'' ''table does not exist'')
      | _ \<Rightarrow> None)"
  by (simp_all add: query_failing_env_def demo_env_def)

lemma demo_env_simps:
  "getenv demo_env = demo_getenv"
  "json_loads demo_env = demo_json_loads"
  "raises demo_env = demo_raises"
  "config_table demo_env = demo_table"
  by (simp_all add: demo_env_def)

lemma json_literals_differ:
  "between_params_json \<noteq> ''{}''" "compound_params_json \<noteq> ''{}''"
  "compound_params_json \<noteq> between_params_json"
  "between_params_json \<noteq> []" "compound_params_json \<noteq> []"
  by (simp_all add: between_params_json_def compound_params_json_def quoted_def)

lemma demo_enabled_rows:
  "filter (\<lambda>r. is_enabled r = Some True) demo_table =
     [\<lparr>table_name = Some ''ORDERS'', column_name = Some ''ID'',
       expectation_type = Some ''expect_column_values_to_not_be_null'',
       params_json = Some ''{}'', is_enabled = Some True\<rparr>,
      \<lparr>table_name = Some ''CUSTOMERS'', column_name = Some ''EMAIL'',
       expectation_type = Some ''expect_column_values_to_not_be_null'',
       params_json = None, is_enabled = Some True\<rparr>,
      \<lparr>table_name = Some ''ORDERS'', column_name = None,
       expectation_type = Some ''expect_compound_columns_to_be_unique'',
       params_json = Some compound_params_json, is_enabled = Some True\<rparr>]"
  by (simp add: demo_table_def)

text \<open>
  C2. When the connection is made and the configuration query raises an exception, the
  loader prints its message, closes the connection and goes on with the two hardcoded
  rows: it returns normally, and the mapping it returns has the single table
  \<^verbatim>\<open>TEST_DATES\<close> with exactly two rules, the not-null check on column \<^verbatim>\<open>ID\<close> and the
  between check on column \<^verbatim>\<open>EVENT_DATE\<close>, in this order. (The message and the closing of
  the connection are calls too, and are taken to return.)
\<close>

theorem query_failure_substitutes_fallback:
  assumes "raises env h (connect_call env) = None"
      and "raises env (h @ [connect_call env]) (ReadSql config_query) = Some (Exc c m)"
      and "raises env (h @ [connect_call env, ReadSql config_query])
             (Print (load_error_message (Exc c m))) = None"
      and "raises env (h @ [connect_call env, ReadSql config_query,
             Print (load_error_message (Exc c m))]) ConnClose = None"
      and "parses_fallback env"
  shows "load_config_from_snowflake env h =
           (Inr [(Some ''TEST_DATES'',
                  [build_expectation_function env (Some ''expect_column_values_to_not_be_null'')
                     (Some ''ID'') (PDict []),
                   build_expectation_function env (Some ''expect_column_values_to_be_between'')
                     (Some ''EVENT_DATE'')
                     (PDict [(''min_value'', PStr ''2025-01-01''),
                             (''max_value'', PStr ''2025-12-02'')])])],
            [connect_call env, ReadSql config_query, Print (load_error_message (Exc c m)),
             ConnClose])"
proof -
  have frame: "load_frame env (h @ [connect_call env]) =
           (Inr fallback_rows,
            [ReadSql config_query, Print (load_error_message (Exc c m)), ConnClose])"
    using assms(2-4) by (intro load_frame_query_fails) simp_all
  have ne: "between_params_json \<noteq> []"
    by (simp add: between_params_json_def)
  have grp: "group_rows env fallback_rows [] =
      Inr [(Some ''TEST_DATES'',
                  [build_expectation_function env (Some ''expect_column_values_to_not_be_null'')
                     (Some ''ID'') (PDict []),
                   build_expectation_function env (Some ''expect_column_values_to_be_between'')
                     (Some ''EVENT_DATE'')
                     (PDict [(''min_value'', PStr ''2025-01-01''),
                             (''max_value'', PStr ''2025-12-02'')])])]"
    using assms(5) ne
    by (simp add: fallback_rows_def row_get_def row_params_def parses_fallback_def
        between_params_def)
  show ?thesis
    using assms(1) grp
    by (simp add: load_config_from_snowflake_def seq_ext_ok seq_ok [where m = "load_frame env", OF frame] ret_def)
qed

theorem query_failure_substitutes_fallback_witness:
  "raises query_failing_env [GetContext] (connect_call query_failing_env) = None
   \<and> raises query_failing_env [GetContext, connect_call query_failing_env]
        (ReadSql config_query) = Some (Exc ''ProgrammingError'' ''table does not exist'')
   \<and> parses_fallback query_failing_env
   \<and> load_config_from_snowflake query_failing_env [GetContext] =
       (Inr [(Some ''TEST_DATES'',
              [build_expectation_function query_failing_env
                 (Some ''expect_column_values_to_not_be_null'') (Some ''ID'') (PDict []),
               build_expectation_function query_failing_env
                 (Some ''expect_column_values_to_be_between'') (Some ''EVENT_DATE'')
                 (PDict [(''min_value'', PStr ''2025-01-01''),
                         (''max_value'', PStr ''2025-12-02'')])])],
        [connect_call query_failing_env, ReadSql config_query,
         Print (load_error_message (Exc ''ProgrammingError'' ''table does not exist'')),
         ConnClose])"
proof -
  have a: "raises query_failing_env [GetContext] (connect_call query_failing_env) = None"
    by (simp add: query_failing_env_simps connect_call_def)
  have b: "raises query_failing_env ([GetContext] @ [connect_call query_failing_env])
        (ReadSql config_query) = Some (Exc ''ProgrammingError'' ''table does not exist'')"
    by (simp add: query_failing_env_simps)
  have c: "raises query_failing_env
        ([GetContext] @ [connect_call query_failing_env, ReadSql config_query])
        (Print (load_error_message (Exc ''ProgrammingError'' ''table does not exist''))) = None"
    by (simp add: query_failing_env_simps)
  have d: "raises query_failing_env
        ([GetContext] @ [connect_call query_failing_env, ReadSql config_query,
           Print (load_error_message (Exc ''ProgrammingError'' ''table does not exist''))])
        ConnClose = None"
    by (simp add: query_failing_env_simps)
  have e: "parses_fallback query_failing_env"
    by (simp add: parses_fallback_def query_failing_env_simps demo_json_loads_def
        json_literals_differ)
  from query_failure_substitutes_fallback [OF a b c d e] a b e show ?thesis
    by simp
qed

text \<open>
  C3. The query the loader sends selects the four rule columns of the rows of the
  configuration table whose \<^verbatim>\<open>is_enabled\<close> is true. When the connection is made, the
  query returns and the parameter blob of every such row parses, the loader returns a
  mapping built from exactly these rows: its keys are distinct, a table name is a key
  exactly when an enabled row names it, and the list under a table name holds the
  closures of that table's own enabled rows, in the order of the rows.
\<close>

theorem load_config_groups_enabled_rows:
  assumes "raises env h (connect_call env) = None"
      and "raises env (h @ [connect_call env]) (ReadSql config_query) = None"
      and "raises env (h @ [connect_call env, ReadSql config_query]) ConnClose = None"
      and "list_all (parses env) (filter (\<lambda>r. is_enabled r = Some True) (config_table env))"
  shows "\<exists>g. load_config_from_snowflake env h =
               (Inr g, [connect_call env, ReadSql config_query, ConnClose])
     \<and> distinct (map fst g)
     \<and> (\<forall>t. map_of g t =
          (if \<exists>r \<in> set (config_table env). is_enabled r = Some True \<and> table_name r = t
           then Some (map (translated env)
                        (filter (\<lambda>r. is_enabled r = Some True \<and> table_name r = t)
                           (config_table env)))
           else None))"
proof -
  let ?rs = "filter (\<lambda>r. is_enabled r = Some True) (config_table env)"
  have frame: "load_frame env (h @ [connect_call env]) =
           (Inr (map frame_of ?rs), [ReadSql config_query, ConnClose])"
    using assms(2,3) by (intro load_frame_query_ok) simp_all
  from group_rows_ok [OF assms(4), of "[]"] obtain g where
    g: "group_rows env (map frame_of ?rs) [] = Inr g"
    and d: "distinct (map fst g)"
    and m: "\<forall>t. map_of g t =
          (if t \<in> table_name ` set ?rs
           then Some (map (translated env) (filter (\<lambda>r. table_name r = t) ?rs))
           else None)"
    by (auto simp: rules_of_def)
  have keys: "\<And>t. t \<in> table_name ` set ?rs \<longleftrightarrow>
      (\<exists>r \<in> set (config_table env). is_enabled r = Some True \<and> table_name r = t)"
    by auto
  have rows: "\<And>t. filter (\<lambda>r. table_name r = t) ?rs =
      filter (\<lambda>r. is_enabled r = Some True \<and> table_name r = t) (config_table env)"
    by (simp add: conj_commute)
  have "load_config_from_snowflake env h =
               (Inr g, [connect_call env, ReadSql config_query, ConnClose])"
    using assms(1) g
    by (simp add: load_config_from_snowflake_def seq_ext_ok seq_ok [where m = "load_frame env", OF frame] ret_def)
  moreover have "\<forall>t. map_of g t =
          (if \<exists>r \<in> set (config_table env). is_enabled r = Some True \<and> table_name r = t
           then Some (map (translated env)
                        (filter (\<lambda>r. is_enabled r = Some True \<and> table_name r = t)
                           (config_table env)))
           else None)"
    using m unfolding keys rows by simp
  ultimately show ?thesis using d by blast
qed

theorem load_config_groups_enabled_rows_witness:
  "raises demo_env [GetContext] (connect_call demo_env) = None
   \<and> list_all (parses demo_env) (filter (\<lambda>r. is_enabled r = Some True) (config_table demo_env))
   \<and> (\<exists>g. load_config_from_snowflake demo_env [GetContext] =
               (Inr g, [connect_call demo_env, ReadSql config_query, ConnClose])
        \<and> map_of g (Some ''ORDERS'') =
            Some [build_expectation_function demo_env
                    (Some ''expect_column_values_to_not_be_null'') (Some ''ID'') (PDict []),
                  build_expectation_function demo_env
                    (Some ''expect_compound_columns_to_be_unique'') None
                    (PDict compound_params)]
        \<and> map_of g (Some ''CUSTOMERS'') =
            Some [build_expectation_function demo_env
                    (Some ''expect_column_values_to_not_be_null'') (Some ''EMAIL'') (PDict [])]
        \<and> map_of g (Some ''PAYMENTS'') = None)"
proof -
  have a: "raises demo_env [GetContext] (connect_call demo_env) = None"
    by (simp add: demo_env_simps demo_raises_def connect_call_def)
  have b: "raises demo_env ([GetContext] @ [connect_call demo_env]) (ReadSql config_query) = None"
    by (simp add: demo_env_simps demo_raises_def)
  have c: "raises demo_env ([GetContext] @ [connect_call demo_env, ReadSql config_query])
             ConnClose = None"
    by (simp add: demo_env_simps demo_raises_def)
  have d: "list_all (parses demo_env)
             (filter (\<lambda>r. is_enabled r = Some True) (config_table demo_env))"
    by (simp add: demo_env_simps demo_enabled_rows parses_def
        demo_json_loads_def json_literals_differ)
  from load_config_groups_enabled_rows [OF a b c d] obtain g where
    run: "load_config_from_snowflake demo_env [GetContext] =
               (Inr g, [connect_call demo_env, ReadSql config_query, ConnClose])"
    and m: "\<And>t. map_of g t =
          (if \<exists>r \<in> set (config_table demo_env). is_enabled r = Some True \<and> table_name r = t
           then Some (map (translated demo_env)
                        (filter (\<lambda>r. is_enabled r = Some True \<and> table_name r = t)
                           (config_table demo_env)))
           else None)"
    by blast
  have "map_of g (Some ''ORDERS'') =
            Some [build_expectation_function demo_env
                    (Some ''expect_column_values_to_not_be_null'') (Some ''ID'') (PDict []),
                  build_expectation_function demo_env
                    (Some ''expect_compound_columns_to_be_unique'') None
                    (PDict compound_params)]"
    by (simp add: m demo_env_simps demo_table_def translated_def
        demo_json_loads_def json_literals_differ)
  moreover have "map_of g (Some ''CUSTOMERS'') =
            Some [build_expectation_function demo_env
                    (Some ''expect_column_values_to_not_be_null'') (Some ''EMAIL'') (PDict [])]"
    by (simp add: m demo_env_simps demo_table_def translated_def)
  moreover have "map_of g (Some ''PAYMENTS'') = None"
    by (simp add: m demo_env_simps demo_table_def)
  ultimately show ?thesis using a d run by blast
qed

text \<open>
  C10. The connection is opened before the \<^verbatim>\<open>try\<close> statement. When \<^verbatim>\<open>connect\<close> raises,
  the loader raises the same exception, and \<^verbatim>\<open>connect\<close> is the only call it has made:
  no query, no message, no fallback rows.
\<close>

theorem connect_failure_propagates:
  assumes "raises env h (connect_call env) = Some e"
  shows "load_config_from_snowflake env h = (Inl e, [connect_call env])"
  using assms by (simp add: load_config_from_snowflake_def seq_def ext_def)

theorem connect_failure_propagates_witness:
  "raises offline_env [GetContext] (connect_call offline_env)
     = Some (Exc ''DatabaseError'' ''could not connect'')
   \<and> load_config_from_snowflake offline_env [GetContext]
     = (Inl (Exc ''DatabaseError'' ''could not connect''),
        [Connect (Some ''svc'') (Some ''pw'') (Some ''acme'') (Some ''DQ'') (Some ''PUBLIC'')
           (Some ''WH'')])"
  using connect_failure_propagates [of offline_env "[GetContext]"
      "Exc ''DatabaseError'' ''could not connect''"]
  by (simp add: offline_env_def demo_env_def connect_call_def demo_getenv_def)

section \<open>The orchestrator\<close>

lemma seq_Inr_E:
  assumes "seq m f h = (Inr y, es)"
  obtains x es1 es2 where "m h = (Inr x, es1)" and "f x (h @ es1) = (Inr y, es2)"
    and "es = es1 @ es2"
  using assms by (auto simp: seq_def split: prod.splits sum.splits)

lemma ext_Inr_iff: "ext env c h = (Inr u, es) \<longleftrightarrow> raises env h c = None \<and> es = [c]"
  by (auto simp: ext_def split: option.splits)

lemma validate_Inr:
  "validate env v h = (Inr ok, es) \<Longrightarrow> es = [Validate v] \<and> ok = validation_success env h v"
  by (auto simp: validate_def split: option.splits)

lemma ensure_suite_Inr:
  assumes "try_except (ext env (GetExpectationSuite s)) (\<lambda>e. ext env (AddExpectationSuite s)) h
             = (Inr u, es)"
  shows "es = [GetExpectationSuite s] \<or> es = [GetExpectationSuite s, AddExpectationSuite s]"
  using assms
  by (auto simp: try_except_def ext_def split: option.splits if_splits)

lemma for_each_applied:
  "for_each (\<lambda>func. func v) fs h = (Inr (), evs) \<Longrightarrow> applied_in_order fs v h evs"
proof (induction fs arbitrary: h evs)
  case Nil
  then show ?case by (simp add: ret_def)
next
  case (Cons f fs)
  from Cons.prems have "seq (f v) (\<lambda>u. for_each (\<lambda>func. func v) fs) h = (Inr (), evs)"
    by simp
  then obtain x es1 es2 where a: "f v h = (Inr x, es1)"
    and b: "for_each (\<lambda>func. func v) fs (h @ es1) = (Inr (), es2)" and c: "evs = es1 @ es2"
    by (rule seq_Inr_E)
  from Cons.IH [OF b] a c show ?case by simp
qed

lemma closure_Inr:
  assumes "build_expectation_function env etype cname params v h = (Inr u, es)"
  shows "\<exists>name args kw. es = [GetAttr v name, Invoke v name args kw]"
  using assms
  by (auto simp: build_expectation_function_def seq_def ext_def raise_exn_def
      split: option.splits sum.splits if_splits)

lemma for_each_applied_once:
  assumes "for_each (\<lambda>func. func v) fs h = (Inr (), evs)" and "\<forall>f \<in> set fs. built env f"
  shows "rules_applied_once fs v h evs"
  using assms
proof (induction fs arbitrary: h evs)
  case Nil
  then show ?case by (simp add: ret_def)
next
  case (Cons f fs)
  from Cons.prems(1) have "seq (f v) (\<lambda>u. for_each (\<lambda>func. func v) fs) h = (Inr (), evs)"
    by simp
  then obtain x es1 es2 where a: "f v h = (Inr x, es1)"
    and b: "for_each (\<lambda>func. func v) fs (h @ es1) = (Inr (), es2)" and c: "evs = es1 @ es2"
    by (rule seq_Inr_E)
  from Cons.prems(2) obtain etype cname params where
    "f = build_expectation_function env etype cname params"
    by (auto simp: built_def)
  with a closure_Inr obtain name args kw where es1: "es1 = [GetAttr v name, Invoke v name args kw]"
    by blast
  from Cons.prems(2) have "\<forall>f \<in> set fs. built env f" by simp
  from Cons.IH [OF b this] a c es1 show ?case by simp
qed

lemma process_table_steps_with:
  assumes "process_table env (t, fs) h = (Inr (), seg)"
      and "\<And>v h' evs. for_each (\<lambda>func. func v) fs h' = (Inr (), evs) \<Longrightarrow> applied fs v h' evs"
  shows "\<exists>name sch. t = Some name \<and> getenv env ''SNOWFLAKE_SCHEMA'' = Some sch
           \<and> table_steps_with applied env h sch name fs seg"
proof -
  from assms(1) obtain name where t: "t = Some name"
    by (cases t) (auto simp: process_table_def raise_exn_def)
  from assms(1) t obtain sch where sch: "getenv env ''SNOWFLAKE_SCHEMA'' = Some sch"
    by (cases "getenv env ''SNOWFLAKE_SCHEMA''") (auto simp: process_table_def raise_exn_def)
  let ?v = "table_validator env sch name"
  let ?s = "suite_name env name"
  let ?a = "asset_name env sch name"
  note run = assms(1) [unfolded process_table_def t, simplified, unfolded sch, simplified]
  from run obtain e2 e4 ok where
    seg: "seg = AddTableAsset ?a name sch # e2 @ GetValidator datasource_name ?a ?s # e4
            @ [SaveExpectationSuite ?v False,
               AddOrUpdateCheckpoint (?s @ ''_checkpoint'') ?v,
               CheckpointRun (?s @ ''_checkpoint''),
               Validate ?v, BuildDataDocs [''local_site''], OpenDataDocs,
               Print (verdict ok name)]"
    and s2: "try_except (ext env (GetExpectationSuite ?s))
                (\<lambda>e. ext env (AddExpectationSuite ?s)) (h @ [AddTableAsset ?a name sch])
              = (Inr (), e2)"
    and s4: "for_each (\<lambda>func. func ?v) fs
               (h @ AddTableAsset ?a name sch # e2 @ [GetValidator datasource_name ?a ?s])
              = (Inr (), e4)"
    and s8: "validate env ?v
               (h @ AddTableAsset ?a name sch # e2 @ GetValidator datasource_name ?a ?s # e4
                  @ [SaveExpectationSuite ?v False,
                     AddOrUpdateCheckpoint (?s @ ''_checkpoint'') ?v,
                     CheckpointRun (?s @ ''_checkpoint'')])
              = (Inr ok, [Validate ?v])"
    apply (elim seq_Inr_E)
    apply (simp add: ext_Inr_iff)
    apply (frule validate_Inr)
    apply simp
    done
  from s2 have e2: "e2 = [GetExpectationSuite ?s]
      \<or> e2 = [GetExpectationSuite ?s, AddExpectationSuite ?s]"
    by (rule ensure_suite_Inr)
  from s4 have e4: "applied fs ?v
      (h @ AddTableAsset ?a name sch # e2 @ [GetValidator datasource_name ?a ?s]) e4"
    by (rule assms(2))
  from s8 have ok: "ok = validation_success env
               (h @ AddTableAsset ?a name sch # e2 @ GetValidator datasource_name ?a ?s # e4
                  @ [SaveExpectationSuite ?v False,
                     AddOrUpdateCheckpoint (?s @ ''_checkpoint'') ?v,
                     CheckpointRun (?s @ ''_checkpoint'')]) ?v"
    by (simp add: validate_Inr)
  have "table_steps_with applied env h sch name fs seg"
    unfolding table_steps_with_def
    apply (rule exI [of _ "str_lower env sch @ ''_'' @ str_lower env name"])
    apply (rule exI [of _ "str_lower env name @ ''_suite''"])
    apply (rule exI [of _ "Validator ''snowflake_ds''
                             (str_lower env sch @ ''_'' @ str_lower env name)
                             (str_lower env name @ ''_suite'')"])
    apply (rule exI [of _ e2])
    apply (rule exI [of _ e4])
    apply (rule exI [of _ ok])
    using e2 e4 seg ok [symmetric]
    apply (simp add: suite_name_def asset_name_def table_validator_def datasource_name_def
        verdict_def)
    done
  with t sch show ?thesis by blast
qed

lemma process_table_steps:
  assumes "process_table env (t, fs) h = (Inr (), seg)"
  shows "\<exists>name sch. t = Some name \<and> getenv env ''SNOWFLAKE_SCHEMA'' = Some sch
           \<and> table_steps env h sch name fs seg"
  unfolding table_steps_def
  using assms by (rule process_table_steps_with) (rule for_each_applied)

lemma process_table_pass:
  assumes "process_table env (t, fs) h = (Inr (), seg)" and "\<forall>f \<in> set fs. built env f"
  shows "\<exists>name sch. t = Some name \<and> getenv env ''SNOWFLAKE_SCHEMA'' = Some sch
           \<and> table_steps_with rules_applied_once env h sch name fs seg"
  using assms(1)
proof (rule process_table_steps_with)
  fix v h' evs
  assume "for_each (\<lambda>func. func v) fs h' = (Inr (), evs)"
  from for_each_applied_once [OF this assms(2)] show "rules_applied_once fs v h' evs" .
qed

lemma for_each_passes:
  assumes "for_each (process_table env) g h = (Inr (), loop)"
      and "\<forall>item \<in> set g. \<forall>f \<in> set (snd item). built env f"
  shows "\<exists>segs. loop = concat segs \<and> passes env h g segs"
  using assms
proof (induction g arbitrary: h loop)
  case Nil
  then show ?case by (simp add: ret_def)
next
  case (Cons item g)
  from Cons.prems(1)
  have "seq (process_table env item) (\<lambda>u. for_each (process_table env) g) h = (Inr (), loop)"
    by simp
  then obtain u es1 es2 where a: "process_table env item h = (Inr u, es1)"
    and b: "for_each (process_table env) g (h @ es1) = (Inr (), es2)" and c: "loop = es1 @ es2"
    by (rule seq_Inr_E)
  from a have "process_table env (fst item, snd item) h = (Inr (), es1)" by simp
  moreover from Cons.prems(2) have "\<forall>f \<in> set (snd item). built env f" by simp
  ultimately obtain name sch where n: "fst item = Some name"
    and s: "getenv env ''SNOWFLAKE_SCHEMA'' = Some sch"
    and st: "table_steps_with rules_applied_once env h sch name (snd item) es1"
    using process_table_pass by blast
  from Cons.prems(2) have "\<forall>item \<in> set g. \<forall>f \<in> set (snd item). built env f" by simp
  from Cons.IH [OF b this] obtain segs where
    segs: "es2 = concat segs" and p: "passes env (h @ es1) g segs"
    by blast
  from c segs n s st p
  have "loop = concat (es1 # segs) \<and> passes env h (item # g) (es1 # segs)"
    by simp
  then show ?case by blast
qed

lemma for_each_segment:
  assumes "for_each body xs h = (Inr (), tr)" and "x \<in> set xs"
  shows "\<exists>before seg after. tr = before @ seg @ after \<and> body x (h @ before) = (Inr (), seg)"
  using assms
proof (induction xs arbitrary: h tr)
  case Nil
  then show ?case by simp
next
  case (Cons y ys)
  from Cons.prems(1) have "seq (body y) (\<lambda>u. for_each body ys) h = (Inr (), tr)"
    by simp
  then obtain u es1 es2 where a: "body y h = (Inr u, es1)"
    and b: "for_each body ys (h @ es1) = (Inr (), es2)" and c: "tr = es1 @ es2"
    by (rule seq_Inr_E)
  show ?case
  proof (cases "x = y")
    case True
    with a c have "tr = [] @ es1 @ es2 \<and> body x (h @ []) = (Inr (), es1)" by simp
    then show ?thesis by blast
  next
    case False
    with Cons.prems(2) have "x \<in> set ys" by simp
    from Cons.IH [OF b this] obtain before seg after where
      "es2 = before @ seg @ after" and "body x ((h @ es1) @ before) = (Inr (), seg)"
      by blast
    with c have "tr = (es1 @ before) @ seg @ after \<and> body x (h @ es1 @ before) = (Inr (), seg)"
      by simp
    then show ?thesis by blast
  qed
qed

lemma monitor_all_tables_Inr:
  assumes "monitor_all_tables env h = (Inr (), tr)"
  obtains g evs loop where
    "load_config_from_snowflake env (h @ [GetContext]) = (Inr g, evs)"
    and "tr = GetContext # evs
           @ AddOrUpdateSnowflake datasource_name (connection_string env)
           # GetDatasource ''snowflake_ds'' # loop"
    and "for_each (process_table env) g
           (h @ GetContext # evs
              @ [AddOrUpdateSnowflake datasource_name (connection_string env),
                 GetDatasource ''snowflake_ds''])
           = (Inr (), loop)"
  using assms unfolding monitor_all_tables_def
  apply (elim seq_Inr_E)
  apply (simp add: ext_Inr_iff)
  done

text \<open>
  C4. In a run that ends without an exception, for every table of the loaded
  configuration the calls of the run contain that table's steps as one contiguous
  segment, in this order: the table asset is added; the suite is fetched (and added when
  the fetch raised); the validator is obtained; every rule of the table is applied to the
  validator, in order; the suite is saved; the checkpoint is added and run; the
  validation is computed; the documentation is built and opened; and one line is
  printed, which says passed when that validation succeeded and failed when it did not.
\<close>

theorem monitor_all_tables_steps_in_order:
  assumes "monitor_all_tables env h = (Inr (), tr)"
      and "fst (load_config_from_snowflake env (h @ [GetContext])) = Inr g"
      and "(t, fs) \<in> set g"
  shows "\<exists>name sch before seg after.
           t = Some name \<and> getenv env ''SNOWFLAKE_SCHEMA'' = Some sch
           \<and> tr = before @ seg @ after
           \<and> table_steps env (h @ before) sch name fs seg"
proof -
  from assms(1) obtain g' evs loop where
    cfg: "load_config_from_snowflake env (h @ [GetContext]) = (Inr g', evs)"
    and tr: "tr = GetContext # evs
           @ AddOrUpdateSnowflake datasource_name (connection_string env)
           # GetDatasource ''snowflake_ds'' # loop"
    and loop: "for_each (process_table env) g'
           (h @ GetContext # evs
              @ [AddOrUpdateSnowflake datasource_name (connection_string env),
                 GetDatasource ''snowflake_ds''])
           = (Inr (), loop)"
    by (rule monitor_all_tables_Inr)
  from cfg assms(2) have "g' = g" by simp
  with loop assms(3) for_each_segment [of "process_table env" g _ loop "(t, fs)"]
  obtain before seg after where
    l: "loop = before @ seg @ after"
    and p: "process_table env (t, fs)
              ((h @ GetContext # evs
                 @ [AddOrUpdateSnowflake datasource_name (connection_string env),
                    GetDatasource ''snowflake_ds'']) @ before) = (Inr (), seg)"
    by blast
  from process_table_steps [OF p] obtain name sch where
    t: "t = Some name" and sch: "getenv env ''SNOWFLAKE_SCHEMA'' = Some sch"
    and steps: "table_steps env
        ((h @ GetContext # evs
                 @ [AddOrUpdateSnowflake datasource_name (connection_string env),
                    GetDatasource ''snowflake_ds'']) @ before) sch name fs seg"
    by blast
  let ?pre = "GetContext # evs
                 @ [AddOrUpdateSnowflake datasource_name (connection_string env),
                    GetDatasource ''snowflake_ds''] @ before"
  from tr l have "tr = ?pre @ seg @ after" by simp
  moreover from steps have "table_steps env (h @ ?pre) sch name fs seg" by simp
  ultimately show ?thesis using t sch by blast
qed

lemma ensure_suite_missing:
  assumes "raises env h (GetExpectationSuite s) = Some (Exc c m)"
      and "raises env (h @ [GetExpectationSuite s]) (AddExpectationSuite s) = None"
  shows "try_except (ext env (GetExpectationSuite s)) (\<lambda>e. ext env (AddExpectationSuite s)) h
           = (Inr (), [GetExpectationSuite s, AddExpectationSuite s])"
  using assms by (simp add: try_except_def ext_def)

lemma seq_ext_events:
  "snd (seq (ext env c) f h) =
     c # (if raises env h c = None then snd (f () (h @ [c])) else [])"
  by (simp add: seq_def ext_def split: option.splits prod.splits)

lemma for_each_all_return:
  assumes "\<forall>f \<in> set fs. \<forall>h. fst (f v h) = Inr ()"
  shows "fst (for_each (\<lambda>func. func v) fs h) = Inr ()"
  using assms
proof (induction fs arbitrary: h)
  case Nil
  then show ?case by (simp add: ret_def)
next
  case (Cons f fs)
  from Cons.prems have "fst (f v h) = Inr ()" by simp
  then obtain es where "f v h = (Inr (), es)" by (cases "f v h") simp
  with Cons show ?case by (simp add: seq_ok)
qed

text \<open>
  C5. When the fetch of a table's suite raises an exception, the orchestrator adds a
  suite of that name and goes on with the next step, obtaining the validator. When no
  other call raises and every rule returns, the table is processed to its end without
  an exception.
\<close>

theorem missing_suite_is_created:
  assumes sch: "getenv env ''SNOWFLAKE_SCHEMA'' = Some sch"
      and asset: "raises env h (AddTableAsset (asset_name env sch t) t sch) = None"
      and missing: "raises env (h @ [AddTableAsset (asset_name env sch t) t sch])
                      (GetExpectationSuite (suite_name env t)) = Some (Exc c m)"
      and created: "raises env (h @ [AddTableAsset (asset_name env sch t) t sch,
                      GetExpectationSuite (suite_name env t)])
                      (AddExpectationSuite (suite_name env t)) = None"
  shows "(\<exists>rest. snd (process_table env (Some t, fs) h) =
            [AddTableAsset (asset_name env sch t) t sch,
             GetExpectationSuite (suite_name env t),
             AddExpectationSuite (suite_name env t),
             GetValidator datasource_name (asset_name env sch t) (suite_name env t)] @ rest)
       \<and> ((\<forall>h' c'. c' \<noteq> GetExpectationSuite (suite_name env t) \<longrightarrow> raises env h' c' = None)
            \<and> (\<forall>f \<in> set fs. \<forall>h'. fst (f (table_validator env sch t) h') = Inr ())
            \<longrightarrow> fst (process_table env (Some t, fs) h) = Inr ())"
proof
  have suite: "try_except (ext env (GetExpectationSuite (suite_name env t)))
                 (\<lambda>e. ext env (AddExpectationSuite (suite_name env t)))
                 (h @ [AddTableAsset (asset_name env sch t) t sch])
           = (Inr (), [GetExpectationSuite (suite_name env t), AddExpectationSuite (suite_name env t)])"
    using missing created by (intro ensure_suite_missing) simp_all
  show "\<exists>rest. snd (process_table env (Some t, fs) h) =
            [AddTableAsset (asset_name env sch t) t sch,
             GetExpectationSuite (suite_name env t),
             AddExpectationSuite (suite_name env t),
             GetValidator datasource_name (asset_name env sch t) (suite_name env t)] @ rest"
    by (simp add: process_table_def sch seq_ext_ok [OF asset]
        seq_ok [where m = "try_except (ext env (GetExpectationSuite (suite_name env t)))
                 (\<lambda>e. ext env (AddExpectationSuite (suite_name env t)))", OF suite]
        seq_ext_events)
  show "(\<forall>h' c'. c' \<noteq> GetExpectationSuite (suite_name env t) \<longrightarrow> raises env h' c' = None)
            \<and> (\<forall>f \<in> set fs. \<forall>h'. fst (f (table_validator env sch t) h') = Inr ())
            \<longrightarrow> fst (process_table env (Some t, fs) h) = Inr ()"
  proof
    assume clean: "(\<forall>h' c'. c' \<noteq> GetExpectationSuite (suite_name env t) \<longrightarrow> raises env h' c' = None)
            \<and> (\<forall>f \<in> set fs. \<forall>h'. fst (f (table_validator env sch t) h') = Inr ())"
    then have ok: "\<And>h' c'. c' \<noteq> GetExpectationSuite (suite_name env t) \<Longrightarrow> raises env h' c' = None"
      by blast
    from clean have "\<And>h'. fst (for_each (\<lambda>func. func (table_validator env sch t)) fs h') = Inr ()"
      by (intro for_each_all_return) blast
    then have rules: "\<And>h'. \<exists>es. for_each (\<lambda>func. func (table_validator env sch t)) fs h' = (Inr (), es)"
      by (metis prod.collapse)
    obtain es where es: "for_each (\<lambda>func. func (table_validator env sch t)) fs
         (h @ [AddTableAsset (asset_name env sch t) t sch,
             GetExpectationSuite (suite_name env t),
             AddExpectationSuite (suite_name env t),
             GetValidator datasource_name (asset_name env sch t) (suite_name env t)]) = (Inr (), es)"
      using rules by blast
    show "fst (process_table env (Some t, fs) h) = Inr ()"
      by (simp add: process_table_def sch seq_ext_ok ok
        seq_ok [where m = "try_except (ext env (GetExpectationSuite (suite_name env t)))
                 (\<lambda>e. ext env (AddExpectationSuite (suite_name env t)))", OF suite]
        seq_ok [where m = "for_each (\<lambda>func. func (table_validator env sch t)) fs", OF es]
        seq_ok [where m = "validate env (table_validator env sch t)"] validate_def ext_def)
  qed
qed

lemma ascii_lower_examples:
  "ascii_lower ''ORDERS'' = ''orders''" "ascii_lower ''CUSTOMERS'' = ''customers''"
  "ascii_lower ''PUBLIC'' = ''public''" "ascii_lower ''orders'' = ''orders''"
  by (simp_all add: ascii_lower_def)

lemma demo_load:
  "load_config_from_snowflake demo_env [GetContext] =
     (Inr demo_grouped, [connect_call demo_env, ReadSql config_query, ConnClose])"
proof -
  have frame: "load_frame demo_env ([GetContext] @ [connect_call demo_env]) =
           (Inr (map frame_of (filter (\<lambda>r. is_enabled r = Some True) (config_table demo_env))),
            [ReadSql config_query, ConnClose])"
    by (intro load_frame_query_ok) (simp_all add: demo_env_simps demo_raises_def)
  have g: "group_rows demo_env
             (map frame_of (filter (\<lambda>r. is_enabled r = Some True) (config_table demo_env))) []
           = Inr demo_grouped"
    by (simp add: demo_env_simps demo_enabled_rows frame_of_def row_get_def row_params_def
        demo_json_loads_def json_literals_differ demo_grouped_def)
  have c: "raises demo_env [GetContext] (connect_call demo_env) = None"
    by (simp add: demo_env_simps demo_raises_def connect_call_def)
  show ?thesis
    using g frame
    by (simp add: load_config_from_snowflake_def seq_ext_ok [OF c]
        seq_ok [where m = "load_frame demo_env"] ret_def)
qed

lemma ascii_names:
  assumes "str_lower env = ascii_lower"
  shows "suite_name env ''ORDERS'' = ''orders_suite''"
    and "suite_name env ''CUSTOMERS'' = ''customers_suite''"
    and "suite_name env ''orders'' = ''orders_suite''"
    and "asset_name env ''PUBLIC'' ''ORDERS'' = ''public_orders''"
    and "asset_name env ''PUBLIC'' ''CUSTOMERS'' = ''public_customers''"
    and "asset_name env ''PUBLIC'' ''orders'' = ''public_orders''"
    and "table_validator env ''PUBLIC'' ''ORDERS'' = demo_validator"
    and "table_validator env ''PUBLIC'' ''CUSTOMERS'' = customers_validator"
    and "table_validator env ''PUBLIC'' ''orders'' = demo_validator"
  by (simp_all add: assms suite_name_def asset_name_def table_validator_def
      ascii_lower_examples demo_validator_def customers_validator_def datasource_name_def)

lemma demo_str_lower: "str_lower demo_env = ascii_lower"
  by (simp add: demo_env_def)

lemmas demo_names = ascii_names [OF demo_str_lower]

lemma demo_success: "validation_success demo_env = (\<lambda>h v. v = demo_validator)"
  by (simp add: demo_env_def)

lemma validators_differ: "customers_validator \<noteq> demo_validator"
  by (simp add: customers_validator_def demo_validator_def)

lemma demo_schema: "getenv demo_env ''SNOWFLAKE_SCHEMA'' = Some ''PUBLIC''"
  by (simp add: demo_env_simps demo_getenv_def)

lemma demo_orders_run:
  "process_table demo_env
     (Some ''ORDERS'',
       [build_expectation_function demo_env (Some ''expect_column_values_to_not_be_null'')
          (Some ''ID'') (PDict []),
        build_expectation_function demo_env (Some ''expect_compound_columns_to_be_unique'')
          None (PDict compound_params)]) demo_prefix
     = (Inr (), demo_orders_trace)"
  by (simp add: process_table_def demo_schema demo_names seq_def ext_def try_except_def
      validate_def ret_def build_expectation_function_def full_params_def
      column_list_kwargs_def compound_params_def demo_env_simps demo_raises_def
      demo_prefix_def demo_orders_trace_def verdict_def datasource_name_def demo_success
      demo_getenv_def)

lemma demo_customers_run:
  "process_table demo_env
     (Some ''CUSTOMERS'',
       [build_expectation_function demo_env (Some ''expect_column_values_to_not_be_null'')
          (Some ''EMAIL'') (PDict [])]) (demo_prefix @ demo_orders_trace)
     = (Inr (), demo_customers_trace)"
  by (simp add: process_table_def demo_schema demo_names seq_def ext_def try_except_def
      validate_def ret_def build_expectation_function_def full_params_def
      demo_env_simps demo_raises_def
      demo_prefix_def demo_orders_trace_def demo_customers_trace_def verdict_def
      datasource_name_def demo_success demo_getenv_def validators_differ)

lemma demo_run: "monitor_all_tables demo_env [] = (Inr (), demo_trace)"
proof -
  have ctx: "raises demo_env [] GetContext = None"
    by (simp add: demo_env_simps demo_raises_def)
  have load: "load_config_from_snowflake demo_env ([] @ [GetContext]) =
     (Inr demo_grouped, [connect_call demo_env, ReadSql config_query, ConnClose])"
    using demo_load by simp
  have src: "raises demo_env [GetContext, connect_call demo_env, ReadSql config_query, ConnClose]
      (AddOrUpdateSnowflake datasource_name (connection_string demo_env)) = None"
    by (simp add: demo_env_simps demo_raises_def)
  have ds: "raises demo_env [GetContext, connect_call demo_env, ReadSql config_query, ConnClose,
        AddOrUpdateSnowflake datasource_name (connection_string demo_env)]
      (GetDatasource ''snowflake_ds'') = None"
    by (simp add: demo_env_simps demo_raises_def)
  have pre: "[GetContext, connect_call demo_env, ReadSql config_query, ConnClose,
        AddOrUpdateSnowflake datasource_name (connection_string demo_env),
        GetDatasource ''snowflake_ds''] = demo_prefix"
    by (simp add: demo_prefix_def connect_call_def connection_string_def demo_env_simps
        demo_getenv_def datasource_name_def)
  have loop: "for_each (process_table demo_env) demo_grouped demo_prefix
      = (Inr (), demo_orders_trace @ demo_customers_trace)"
    by (simp add: demo_grouped_def seq_def demo_orders_run demo_customers_run ret_def)
  show ?thesis
    by (simp add: monitor_all_tables_def seq_def ext_def ctx demo_load src ds pre loop
        demo_trace_def)
qed

theorem monitor_all_tables_steps_in_order_witness:
  "monitor_all_tables demo_env [] = (Inr (), demo_trace)
   \<and> fst (load_config_from_snowflake demo_env ([] @ [GetContext])) = Inr demo_grouped
   \<and> getenv demo_env ''SNOWFLAKE_SCHEMA'' = Some ''PUBLIC''
   \<and> (\<exists>before seg after.
         demo_trace = before @ seg @ after
         \<and> table_steps demo_env ([] @ before) ''PUBLIC'' ''CUSTOMERS''
              [build_expectation_function demo_env
                 (Some ''expect_column_values_to_not_be_null'') (Some ''EMAIL'') (PDict [])]
              seg
         \<and> last seg = Print ''Validation failed for CUSTOMERS.'')
   \<and> (\<exists>before seg after.
         demo_trace = before @ seg @ after
         \<and> table_steps demo_env ([] @ before) ''PUBLIC'' ''ORDERS''
              [build_expectation_function demo_env
                 (Some ''expect_column_values_to_not_be_null'') (Some ''ID'') (PDict []),
               build_expectation_function demo_env
                 (Some ''expect_compound_columns_to_be_unique'') None (PDict compound_params)]
              seg
         \<and> last seg = Print ''Validation passed for ORDERS.'')"
proof -
  let ?cs = "[build_expectation_function demo_env
                 (Some ''expect_column_values_to_not_be_null'') (Some ''EMAIL'') (PDict [])]"
  let ?os = "[build_expectation_function demo_env
                 (Some ''expect_column_values_to_not_be_null'') (Some ''ID'') (PDict []),
               build_expectation_function demo_env
                 (Some ''expect_compound_columns_to_be_unique'') None (PDict compound_params)]"
  have cfg: "fst (load_config_from_snowflake demo_env ([] @ [GetContext])) = Inr demo_grouped"
    using demo_load by simp
  have customers: "(Some ''CUSTOMERS'', ?cs) \<in> set demo_grouped"
    by (simp add: demo_grouped_def)
  have orders: "(Some ''ORDERS'', ?os) \<in> set demo_grouped"
    by (simp add: demo_grouped_def)
  from monitor_all_tables_steps_in_order [OF demo_run cfg customers] demo_schema
  obtain before seg after where
    tr: "demo_trace = before @ seg @ after"
    and steps: "table_steps demo_env ([] @ before) ''PUBLIC'' ''CUSTOMERS'' ?cs seg"
    by auto
  from steps have "last seg = Print ''Validation failed for CUSTOMERS.''"
    unfolding table_steps_def table_steps_with_def
    by (auto simp: demo_success demo_validator_def demo_str_lower ascii_lower_examples)
  with tr steps have one: "\<exists>before seg after.
         demo_trace = before @ seg @ after
         \<and> table_steps demo_env ([] @ before) ''PUBLIC'' ''CUSTOMERS'' ?cs seg
         \<and> last seg = Print ''Validation failed for CUSTOMERS.''"
    by blast
  from monitor_all_tables_steps_in_order [OF demo_run cfg orders] demo_schema
  obtain before' seg' after' where
    tr': "demo_trace = before' @ seg' @ after'"
    and steps': "table_steps demo_env ([] @ before') ''PUBLIC'' ''ORDERS'' ?os seg'"
    by auto
  from steps' have "last seg' = Print ''Validation passed for ORDERS.''"
    unfolding table_steps_def table_steps_with_def
    by (auto simp: demo_success demo_validator_def demo_str_lower ascii_lower_examples)
  with tr' steps' have two: "\<exists>before seg after.
         demo_trace = before @ seg @ after
         \<and> table_steps demo_env ([] @ before) ''PUBLIC'' ''ORDERS'' ?os seg
         \<and> last seg = Print ''Validation passed for ORDERS.''"
    by blast
  from demo_run cfg demo_schema one two show ?thesis by (intro conjI)
qed

lemma orders_suite_missing_env_simps:
  "getenv orders_suite_missing_env = demo_getenv"
  "raises orders_suite_missing_env h c =
     (if c = GetExpectationSuite ''orders_suite''
           \<and> AddExpectationSuite ''orders_suite'' \<notin> set h
      then Some (Exc ''DataContextError'' ''expectation_suite orders_suite not found'')
      else None)"
  by (simp_all add: orders_suite_missing_env_def demo_env_def)

lemma orders_suite_missing_str_lower: "str_lower orders_suite_missing_env = ascii_lower"
  by (simp add: orders_suite_missing_env_def demo_env_def)

lemmas orders_suite_missing_names = ascii_names [OF orders_suite_missing_str_lower]

theorem missing_suite_is_created_witness:
  "getenv orders_suite_missing_env ''SNOWFLAKE_SCHEMA'' = Some ''PUBLIC''
   \<and> raises orders_suite_missing_env
         (demo_prefix @ [AddTableAsset (asset_name orders_suite_missing_env ''PUBLIC'' ''ORDERS'') ''ORDERS'' ''PUBLIC''])
         (GetExpectationSuite (suite_name orders_suite_missing_env ''ORDERS''))
       = Some (Exc ''DataContextError'' ''expectation_suite orders_suite not found'')
   \<and> (\<exists>rest. snd (process_table orders_suite_missing_env
                (Some ''ORDERS'',
                 [build_expectation_function orders_suite_missing_env
                    (Some ''expect_column_values_to_not_be_null'') (Some ''ID'') (PDict [])])
                demo_prefix) =
            [AddTableAsset ''public_orders'' ''ORDERS'' ''PUBLIC'',
             GetExpectationSuite ''orders_suite'',
             AddExpectationSuite ''orders_suite'',
             GetValidator ''snowflake_ds'' ''public_orders'' ''orders_suite''] @ rest)
   \<and> fst (process_table orders_suite_missing_env
                (Some ''ORDERS'',
                 [build_expectation_function orders_suite_missing_env
                    (Some ''expect_column_values_to_not_be_null'') (Some ''ID'') (PDict [])])
                demo_prefix) = Inr ()"
proof -
  let ?env = orders_suite_missing_env
  let ?fs = "[build_expectation_function ?env
                    (Some ''expect_column_values_to_not_be_null'') (Some ''ID'') (PDict [])]"
  have sch: "getenv ?env ''SNOWFLAKE_SCHEMA'' = Some ''PUBLIC''"
    by (simp add: orders_suite_missing_env_simps demo_getenv_def)
  have asset: "raises ?env demo_prefix
      (AddTableAsset (asset_name orders_suite_missing_env ''PUBLIC'' ''ORDERS'') ''ORDERS'' ''PUBLIC'') = None"
    by (simp add: orders_suite_missing_env_simps)
  have missing: "raises ?env
         (demo_prefix @ [AddTableAsset (asset_name orders_suite_missing_env ''PUBLIC'' ''ORDERS'') ''ORDERS'' ''PUBLIC''])
         (GetExpectationSuite (suite_name orders_suite_missing_env ''ORDERS''))
       = Some (Exc ''DataContextError'' ''expectation_suite orders_suite not found'')"
    by (simp add: orders_suite_missing_env_simps orders_suite_missing_names demo_prefix_def)
  have created: "raises ?env
         (demo_prefix @ [AddTableAsset (asset_name orders_suite_missing_env ''PUBLIC'' ''ORDERS'') ''ORDERS'' ''PUBLIC'',
            GetExpectationSuite (suite_name orders_suite_missing_env ''ORDERS'')])
         (AddExpectationSuite (suite_name orders_suite_missing_env ''ORDERS'')) = None"
    by (simp add: orders_suite_missing_env_simps)
  have others: "\<forall>h' c'. c' \<noteq> GetExpectationSuite (suite_name orders_suite_missing_env ''ORDERS'')
      \<longrightarrow> raises ?env h' c' = None"
    by (simp add: orders_suite_missing_env_simps orders_suite_missing_names)
  have rules: "\<forall>f \<in> set ?fs. \<forall>h'. fst (f (table_validator orders_suite_missing_env ''PUBLIC'' ''ORDERS'') h') = Inr ()"
    by (simp add: build_expectation_function_def full_params_def seq_def ext_def
        orders_suite_missing_env_simps)
  note t = missing_suite_is_created [OF sch asset missing created, of ?fs]
  from t have one: "\<exists>rest. snd (process_table ?env (Some ''ORDERS'', ?fs) demo_prefix) =
            [AddTableAsset (asset_name orders_suite_missing_env ''PUBLIC'' ''ORDERS'') ''ORDERS'' ''PUBLIC'',
             GetExpectationSuite (suite_name orders_suite_missing_env ''ORDERS''),
             AddExpectationSuite (suite_name orders_suite_missing_env ''ORDERS''),
             GetValidator datasource_name (asset_name orders_suite_missing_env ''PUBLIC'' ''ORDERS'')
               (suite_name orders_suite_missing_env ''ORDERS'')] @ rest"
    by (rule conjunct1)
  from t others rules have two: "fst (process_table ?env (Some ''ORDERS'', ?fs) demo_prefix) = Inr ()"
    by blast
  from one have one': "\<exists>rest. snd (process_table ?env (Some ''ORDERS'', ?fs) demo_prefix) =
            [AddTableAsset ''public_orders'' ''ORDERS'' ''PUBLIC'',
             GetExpectationSuite ''orders_suite'',
             AddExpectationSuite ''orders_suite'',
             GetValidator ''snowflake_ds'' ''public_orders'' ''orders_suite''] @ rest"
    by (simp add: orders_suite_missing_names datasource_name_def)
  from sch missing one' two show ?thesis by (intro conjI)
qed

section \<open>A run is a single pass\<close>

lemma occurrences_simps [simp]:
  "occurrences k [] = 0"
  "occurrences k (c # cs) = wt k (operation_of c) + occurrences k cs"
  "occurrences k (xs @ ys) = occurrences k xs + occurrences k ys"
  by (simp_all add: occurrences_def wt_def)

lemma occ_ret: "occurrences k (snd (ret x h)) \<le> 0"
  by (simp add: ret_def)

lemma occ_raise: "occurrences k (snd (raise_exn e h)) \<le> 0"
  by (simp add: raise_exn_def)

lemma occ_ext: "operation_of c = k' \<Longrightarrow> occurrences k (snd (ext env c h)) \<le> wt k k'"
  by simp

lemma occ_validate: "occurrences k (snd (validate env v h)) \<le> wt k Op_Validate"
  by (simp add: validate_def split: option.splits)

lemma occ_seq:
  assumes "occurrences k (snd (m h)) \<le> a"
      and "\<And>x es. m h = (Inr x, es) \<Longrightarrow> occurrences k (snd (f x (h @ es))) \<le> b"
  shows "occurrences k (snd (seq m f h)) \<le> a + b"
proof (cases "m h")
  case (Pair r es)
  show ?thesis
  proof (cases r)
    case (Inl e)
    with Pair assms(1) show ?thesis by (simp add: seq_def)
  next
    case (Inr x)
    with Pair assms(1) assms(2) [of x es] show ?thesis
      by (auto simp: seq_def split: prod.splits)
  qed
qed

lemma occ_try_except:
  assumes "occurrences k (snd (m h)) \<le> a"
      and "\<And>e es. m h = (Inl e, es) \<Longrightarrow> occurrences k (snd (handler e (h @ es))) \<le> b"
  shows "occurrences k (snd (try_except m handler h)) \<le> a + b"
proof (cases "m h")
  case (Pair r es)
  show ?thesis
  proof (cases r)
    case (Inl e)
    with Pair assms(1) assms(2) [of e es] show ?thesis
      by (auto simp: try_except_def split: prod.splits)
  next
    case (Inr x)
    with Pair assms(1) show ?thesis by (simp add: try_except_def)
  qed
qed

lemma occ_try_finally:
  assumes "occurrences k (snd (m h)) \<le> a"
      and "\<And>r es. m h = (r, es) \<Longrightarrow> occurrences k (snd (cleanup (h @ es))) \<le> b"
  shows "occurrences k (snd (try_finally m cleanup h)) \<le> a + b"
proof (cases "m h")
  case (Pair r es)
  with assms(1) assms(2) [of r es] show ?thesis
    by (auto simp: try_finally_def split: prod.splits sum.splits)
qed

lemma occ_for_each:
  assumes "\<And>x h. x \<in> set xs \<Longrightarrow> occurrences k (snd (body x h)) \<le> w x"
  shows "occurrences k (snd (for_each body xs h)) \<le> sum_list (map w xs)"
  using assms
proof (induction xs arbitrary: h)
  case Nil
  then show ?case by (simp add: ret_def)
next
  case (Cons x xs)
  have "occurrences k (snd (seq (body x) (\<lambda>u. for_each body xs) h)) \<le> w x + sum_list (map w xs)"
    by (rule occ_seq) (simp_all add: Cons)
  then show ?case by simp
qed

lemma occ_closure:
  "occurrences k (snd (build_expectation_function env etype cname params v h))
     \<le> wt k Op_GetAttr + wt k Op_Invoke"
  by (auto simp: build_expectation_function_def seq_def ext_def raise_exn_def
      split: option.splits sum.splits)

lemma occ_process_table:
  assumes "\<forall>f \<in> set (snd item). built env f"
  shows "occurrences k (snd (process_table env item h)) \<le> table_budget (length (snd item)) k"
proof -
  have rules: "\<And>v h. occurrences k (snd (for_each (\<lambda>func. func v) (snd item) h))
      \<le> sum_list (map (\<lambda>f. wt k Op_GetAttr + wt k Op_Invoke) (snd item))"
    using assms by (intro occ_for_each) (auto simp: built_def occ_closure)
  have "occurrences k (snd (process_table env item h))
      \<le> wt k Op_AddTableAsset
        + ((wt k Op_GetExpectationSuite + wt k Op_AddExpectationSuite)
        + (wt k Op_GetValidator
        + (sum_list (map (\<lambda>f. wt k Op_GetAttr + wt k Op_Invoke) (snd item))
        + (wt k Op_SaveExpectationSuite
        + (wt k Op_AddOrUpdateCheckpoint
        + (wt k Op_CheckpointRun
        + (wt k Op_Validate
        + (wt k Op_BuildDataDocs
        + (wt k Op_OpenDataDocs + wt k Op_Print)))))))))"
    unfolding process_table_def
    by (auto split: option.splits simp: raise_exn_def
        intro!: occ_seq occ_try_except occ_ext occ_validate rules)
  also have "\<dots> \<le> table_budget (length (snd item)) k"
    by (cases k) (simp_all add: wt_def table_budget_def sum_list_triv)
  finally show ?thesis .
qed

lemma read_sql_eq:
  "read_sql env =
     seq (ext env (ReadSql config_query))
       (\<lambda>u. ret (map frame_of (filter (\<lambda>r. is_enabled r = Some True) (config_table env))))"
  by (simp add: read_sql_def run_config_query)

lemma occ_load_frame:
  "occurrences k (snd (load_frame env h)) \<le> (wt k Op_ReadSql + 0 + (wt k Op_Print + 0)) + wt k Op_ConnClose"
  unfolding load_frame_def read_sql_eq
  by (intro occ_try_finally occ_try_except occ_seq occ_ext occ_ret) simp_all

lemma occ_load_config:
  "occurrences k (snd (load_config_from_snowflake env h))
     \<le> wt k Op_Connect + (wt k Op_ReadSql + wt k Op_Print + wt k Op_ConnClose)"
proof -
  have "occurrences k (snd (load_config_from_snowflake env h))
     \<le> wt k Op_Connect + (((wt k Op_ReadSql + 0 + (wt k Op_Print + 0)) + wt k Op_ConnClose) + 0)"
    unfolding load_config_from_snowflake_def
    by (intro occ_seq occ_ext occ_load_frame)
      (auto simp: connect_call_def ret_def raise_exn_def split: sum.splits)
  then show ?thesis by simp
qed

lemma append_to_built:
  assumes "\<forall>item \<in> set g. \<forall>f \<in> set (snd item). built env f" and "built env f"
  shows "\<forall>item \<in> set (append_to g t f). \<forall>f \<in> set (snd item). built env f"
  using assms by (induction g t f rule: append_to.induct) auto

lemma group_rows_invariant:
  assumes "group_rows env rs g0 = Inr g"
      and "distinct (map fst g0)"
      and "\<forall>item \<in> set g0. \<forall>f \<in> set (snd item). built env f"
  shows "distinct (map fst g) \<and> (\<forall>item \<in> set g. \<forall>f \<in> set (snd item). built env f)"
  using assms
proof (induction rs arbitrary: g0)
  case Nil
  then show ?case by simp
next
  case (Cons r rs)
  from Cons.prems(1) obtain table column etype p where
    rest: "group_rows env rs
             (append_to g0 table (build_expectation_function env etype column p)) = Inr g"
    by (auto split: sum.splits)
  have b: "built env (build_expectation_function env etype column p)"
    by (auto simp: built_def)
  from append_to_built [OF Cons.prems(3) b]
  have "\<forall>item \<in> set (append_to g0 table (build_expectation_function env etype column p)).
          \<forall>f \<in> set (snd item). built env f" .
  with Cons.IH [OF rest] distinct_append_to [OF Cons.prems(2)] show ?case by blast
qed

lemma load_config_invariant:
  assumes "fst (load_config_from_snowflake env h) = Inr g"
  shows "distinct (map fst g) \<and> (\<forall>item \<in> set g. \<forall>f \<in> set (snd item). built env f)"
proof -
  from assms obtain df where "group_rows env df [] = Inr g"
    by (auto simp: load_config_from_snowflake_def seq_def ret_def raise_exn_def
        split: prod.splits sum.splits)
  from group_rows_invariant [OF this] show ?thesis by simp
qed

lemma occ_monitor:
  assumes "fst (load_config_from_snowflake env (h @ [GetContext])) = Inr g"
  shows "occurrences k (snd (monitor_all_tables env h)) \<le> run_budget g k"
proof -
  from load_config_invariant [OF assms]
  have b: "\<forall>item \<in> set g. \<forall>f \<in> set (snd item). built env f" by blast
  have loop: "\<And>h'. occurrences k (snd (for_each (process_table env) g h'))
      \<le> sum_list (map (\<lambda>item. table_budget (length (snd item)) k) g)"
    using b by (intro occ_for_each occ_process_table) blast
  have "occurrences k (snd (monitor_all_tables env h))
      \<le> wt k Op_GetContext
        + ((wt k Op_Connect + (wt k Op_ReadSql + wt k Op_Print + wt k Op_ConnClose))
        + (wt k Op_AddOrUpdateSnowflake
        + (wt k Op_GetDatasource
        + sum_list (map (\<lambda>item. table_budget (length (snd item)) k) g))))"
    unfolding monitor_all_tables_def
    apply (intro occ_seq occ_ext occ_load_config)
       apply simp
      apply simp
     apply simp
    using assms loop apply (auto simp: ext_Inr_iff)
    done
  also have "\<dots> \<le> run_budget g k"
    by (cases k)
      (simp_all add: wt_def table_budget_def run_budget_def rule_count_def sum_list_triv)
  finally show ?thesis .
qed

lemma tables_started_append [simp]:
  "tables_started (xs @ ys) = tables_started xs @ tables_started ys"
  by (induction xs rule: tables_started.induct) simp_all

lemma applied_built:
  assumes "applied_in_order fs v h evs" and "\<forall>f \<in> set fs. built env f"
  shows "occurrences k evs = length fs * (wt k Op_GetAttr + wt k Op_Invoke)
         \<and> tables_started evs = []"
  using assms
proof (induction fs arbitrary: h evs)
  case Nil
  then show ?case by simp
next
  case (Cons f fs)
  from Cons.prems(1) obtain es where
    f: "f v h = (Inr (), es)" and tk: "take (length es) evs = es"
    and rest: "applied_in_order fs v (h @ es) (drop (length es) evs)"
    by (auto split: prod.splits sum.splits)
  from Cons.prems(2) obtain etype cname params where
    "f = build_expectation_function env etype cname params"
    by (auto simp: built_def)
  with f closure_Inr obtain name args kw where es: "es = [GetAttr v name, Invoke v name args kw]"
    by blast
  from Cons.prems(2) have "\<forall>f \<in> set fs. built env f" by simp
  from Cons.IH [OF rest this]
  have ih: "occurrences k (drop (length es) evs) = length fs * (wt k Op_GetAttr + wt k Op_Invoke)"
    "tables_started (drop (length es) evs) = []"
    by simp_all
  have "evs = es @ drop (length es) evs"
    using tk by (metis append_take_drop_id)
  then have "occurrences k evs = occurrences k es + occurrences k (drop (length es) evs)"
    and "tables_started evs = tables_started es @ tables_started (drop (length es) evs)"
    by (metis occurrences_simps(3), metis tables_started_append)
  with ih es show ?case by simp
qed

lemma table_steps_counts:
  assumes "table_steps env h sch t fs seg" and "\<forall>f \<in> set fs. built env f"
  shows "tables_started seg = [t]"
    and "k \<noteq> Op_AddExpectationSuite \<Longrightarrow> occurrences k seg = table_budget (length fs) k"
proof -
  from assms(1) obtain asset suite v suite_part rule_part line hist where
    seg: "seg = AddTableAsset asset t sch # suite_part
              @ GetValidator ''snowflake_ds'' asset suite # rule_part
              @ [SaveExpectationSuite v False,
                 AddOrUpdateCheckpoint (suite @ ''_checkpoint'') v,
                 CheckpointRun (suite @ ''_checkpoint''),
                 Validate v,
                 BuildDataDocs [''local_site''],
                 OpenDataDocs,
                 Print line]"
    and suite: "suite_part = [GetExpectationSuite suite]
             \<or> suite_part = [GetExpectationSuite suite, AddExpectationSuite suite]"
    and rules: "applied_in_order fs v hist rule_part"
    unfolding table_steps_def table_steps_with_def by blast
  from applied_built [OF rules assms(2)]
  have r: "\<And>k. occurrences k rule_part = length fs * (wt k Op_GetAttr + wt k Op_Invoke)"
    and r0: "tables_started rule_part = []"
    by simp_all
  from suite have s0: "tables_started suite_part = []" by auto
  show "tables_started seg = [t]"
    by (simp add: seg s0 r0)
  assume k: "k \<noteq> Op_AddExpectationSuite"
  from suite have s: "\<And>k. k \<noteq> Op_AddExpectationSuite
      \<Longrightarrow> occurrences k suite_part = wt k Op_GetExpectationSuite"
    by (auto simp: wt_def)
  show "occurrences k seg = table_budget (length fs) k"
    using k by (cases k) (simp_all add: seg s r wt_def table_budget_def)
qed

lemma for_each_Inr_occurrences:
  assumes "for_each body xs h = (Inr (), tr)"
      and "\<And>x h es. x \<in> set xs \<Longrightarrow> body x h = (Inr (), es) \<Longrightarrow> occurrences k es = w x"
  shows "occurrences k tr = sum_list (map w xs)"
  using assms
proof (induction xs arbitrary: h tr)
  case Nil
  then show ?case by (simp add: ret_def)
next
  case (Cons x xs)
  from Cons.prems(1) have "seq (body x) (\<lambda>u. for_each body xs) h = (Inr (), tr)" by simp
  then obtain u es1 es2 where a: "body x h = (Inr u, es1)"
    and b: "for_each body xs (h @ es1) = (Inr (), es2)" and c: "tr = es1 @ es2"
    by (rule seq_Inr_E)
  from Cons.prems(2) [of x h es1] a have "occurrences k es1 = w x" by simp
  moreover from Cons.IH [OF b] Cons.prems(2) have "occurrences k es2 = sum_list (map w xs)"
    by simp
  ultimately show ?case using c by simp
qed

lemma for_each_Inr_tables:
  assumes "for_each body xs h = (Inr (), tr)"
      and "\<And>x h es. x \<in> set xs \<Longrightarrow> body x h = (Inr (), es)
             \<Longrightarrow> map Some (tables_started es) = [fst x]"
  shows "map Some (tables_started tr) = map fst xs"
  using assms
proof (induction xs arbitrary: h tr)
  case Nil
  then show ?case by (simp add: ret_def)
next
  case (Cons x xs)
  from Cons.prems(1) have "seq (body x) (\<lambda>u. for_each body xs) h = (Inr (), tr)" by simp
  then obtain u es1 es2 where a: "body x h = (Inr u, es1)"
    and b: "for_each body xs (h @ es1) = (Inr (), es2)" and c: "tr = es1 @ es2"
    by (rule seq_Inr_E)
  from Cons.prems(2) [of x h es1] a have "map Some (tables_started es1) = [fst x]" by simp
  moreover from Cons.IH [OF b] Cons.prems(2) have "map Some (tables_started es2) = map fst xs"
    by simp
  ultimately show ?case using c by simp
qed

lemma load_config_Inr_events:
  assumes "load_config_from_snowflake env h = (Inr g, evs)"
  shows "evs = [connect_call env, ReadSql config_query, ConnClose]
       \<or> (\<exists>e. evs = [connect_call env, ReadSql config_query,
                       Print (load_error_message e), ConnClose])"
  using assms
  by (auto simp: load_config_from_snowflake_def load_frame_def read_sql_eq try_finally_def
      try_except_def seq_def ext_def ret_def raise_exn_def
      split: option.splits sum.splits prod.splits if_splits)



section \<open>One suite per lowercased table name\<close>

lemma calls_seq:
  assumes "list_all P (snd (m h))"
      and "\<And>x es. m h = (Inr x, es) \<Longrightarrow> list_all P (snd (f x (h @ es)))"
  shows "list_all P (snd (seq m f h))"
proof (cases "m h")
  case (Pair r es)
  show ?thesis
  proof (cases r)
    case (Inl e)
    with Pair assms(1) show ?thesis by (simp add: seq_def)
  next
    case (Inr x)
    with Pair assms(1) assms(2) [of x es] show ?thesis
      by (auto simp: seq_def split: prod.splits)
  qed
qed

lemma calls_try_except:
  assumes "list_all P (snd (m h))"
      and "\<And>e es. m h = (Inl e, es) \<Longrightarrow> list_all P (snd (handler e (h @ es)))"
  shows "list_all P (snd (try_except m handler h))"
proof (cases "m h")
  case (Pair r es)
  show ?thesis
  proof (cases r)
    case (Inl e)
    with Pair assms(1) assms(2) [of e es] show ?thesis
      by (auto simp: try_except_def split: prod.splits)
  next
    case (Inr x)
    with Pair assms(1) show ?thesis by (simp add: try_except_def)
  qed
qed

lemma calls_ext: "P c \<Longrightarrow> list_all P (snd (ext env c h))"
  by simp

lemma calls_validate: "P (Validate v) \<Longrightarrow> list_all P (snd (validate env v h))"
  by (simp add: validate_def split: option.splits)

lemma calls_for_each:
  assumes "\<And>x h. x \<in> set xs \<Longrightarrow> list_all P (snd (body x h))"
  shows "list_all P (snd (for_each body xs h))"
  using assms
proof (induction xs arbitrary: h)
  case Nil
  then show ?case by (simp add: ret_def)
next
  case (Cons x xs)
  have "list_all P (snd (seq (body x) (\<lambda>u. for_each body xs) h))"
    by (rule calls_seq) (simp_all add: Cons)
  then show ?case by simp
qed

lemma calls_closure:
  "list_all (only_suite (suite_of v))
     (snd (build_expectation_function env etype cname params v h))"
  by (auto simp: build_expectation_function_def seq_def ext_def raise_exn_def only_suite_def
      split: option.splits sum.splits)


lemma case_clash_str_lower: "str_lower case_clash_env = ascii_lower"
  by (simp add: case_clash_env_def demo_env_def)



section \<open>Runs that complete, and the ways a rule or the loader fails\<close>

lemma closure_returns:
  assumes "quiet env" and "unpackable params"
  shows "returns_always (build_expectation_function env (Some name) cname params)"
  using assms
  by (auto simp: returns_always_def quiet_def build_expectation_function_def seq_ext_ok
      full_params_unpackable ext_def)

lemma append_to_good:
  assumes "\<forall>item \<in> set g. fst item \<noteq> None \<and> (\<forall>f \<in> set (snd item). returns_always f)"
      and "t \<noteq> None" and "returns_always f"
  shows "\<forall>item \<in> set (append_to g t f).
           fst item \<noteq> None \<and> (\<forall>f \<in> set (snd item). returns_always f)"
  using assms by (induction g t f rule: append_to.induct) auto

lemma translatable_parses: "translatable env r \<Longrightarrow> parses env r"
  by (auto simp: translatable_def parses_def split: option.splits sum.splits)

lemma translated_returns:
  assumes "quiet env" and "translatable env r"
  shows "returns_always (translated env r)"
proof -
  from assms(2) obtain name where e: "expectation_type r = Some name"
    by (auto simp: translatable_def)
  from assms(2)
  have "unpackable (case params_json r of
          None \<Rightarrow> PDict []
        | Some s \<Rightarrow>
            if s = [] then PDict []
            else (case json_loads env s of Inl e \<Rightarrow> PNone | Inr p \<Rightarrow> p))"
    by (auto simp: translatable_def unpackable_def split: option.splits sum.splits)
  from closure_returns [OF assms(1) this] e show ?thesis
    by (simp add: translated_def)
qed

lemma group_rows_good:
  assumes "quiet env" and "list_all (translatable env) rs"
      and "\<forall>item \<in> set g0. fst item \<noteq> None \<and> (\<forall>f \<in> set (snd item). returns_always f)"
  shows "\<exists>g. group_rows env (map frame_of rs) g0 = Inr g
           \<and> (\<forall>item \<in> set g. fst item \<noteq> None \<and> (\<forall>f \<in> set (snd item). returns_always f))"
  using assms(2,3)
proof (induction rs arbitrary: g0)
  case Nil
  then show ?case by simp
next
  case (Cons r rs)
  from Cons.prems(1) have r: "translatable env r" and rest: "list_all (translatable env) rs"
    by simp_all
  from r have t: "table_name r \<noteq> None" by (simp add: translatable_def)
  from append_to_good [OF Cons.prems(2) t translated_returns [OF assms(1) r]]
  have "\<forall>item \<in> set (append_to g0 (table_name r) (translated env r)).
           fst item \<noteq> None \<and> (\<forall>f \<in> set (snd item). returns_always f)" .
  from Cons.IH [OF rest this] show ?case
    by (simp only: list.map group_rows_step [OF translatable_parses [OF r]])
qed

lemma process_table_returns:
  assumes "quiet env" and "getenv env ''SNOWFLAKE_SCHEMA'' = Some sch"
      and "fst item \<noteq> None" and "\<forall>f \<in> set (snd item). returns_always f"
  shows "fst (process_table env item h) = Inr ()"
proof -
  from assms(3) obtain t where t: "fst item = Some t" by auto
  from assms(1) have ok: "\<And>h c. raises env h c = None" by (simp add: quiet_def)
  from assms(4) have "\<And>h'. fst (for_each (\<lambda>func. func (table_validator env sch t)) (snd item) h')
      = Inr ()"
    by (intro for_each_all_return) (simp add: returns_always_def)
  then have rules: "\<And>h'. for_each (\<lambda>func. func (table_validator env sch t)) (snd item) h'
      = (Inr (), snd (for_each (\<lambda>func. func (table_validator env sch t)) (snd item) h'))"
    by (metis prod.collapse)
  have suite: "\<And>h'. try_except (ext env (GetExpectationSuite (suite_name env t)))
                 (\<lambda>e. ext env (AddExpectationSuite (suite_name env t))) h'
           = (Inr (), [GetExpectationSuite (suite_name env t)])"
    by (simp add: try_except_def ext_def ok)
  show ?thesis
    by (simp add: process_table_def t assms(2) seq_ext_ok ok
        seq_ok [where m = "try_except (ext env (GetExpectationSuite (suite_name env t)))
                 (\<lambda>e. ext env (AddExpectationSuite (suite_name env t)))", OF suite]
        seq_ok [where m = "for_each (\<lambda>func. func (table_validator env sch t)) (snd item)", OF rules]
        seq_ok [where m = "validate env (table_validator env sch t)"] validate_def ext_def)
qed

lemma for_each_returns:
  assumes "\<And>x h. x \<in> set xs \<Longrightarrow> fst (body x h) = Inr ()"
  shows "fst (for_each body xs h) = Inr ()"
  using assms
proof (induction xs arbitrary: h)
  case Nil
  then show ?case by (simp add: ret_def)
next
  case (Cons x xs)
  from Cons.prems [of x h] obtain es where "body x h = (Inr (), es)"
    by (cases "body x h") auto
  with Cons show ?case by (simp add: seq_ok)
qed

text \<open>
  X1. When no call raises, the schema is set and every enabled row can be carried
  through, the run ends without an exception.
\<close>

theorem quiet_run_completes:
  assumes "quiet env" and "getenv env ''SNOWFLAKE_SCHEMA'' = Some sch"
      and "list_all (translatable env)
             (filter (\<lambda>r. is_enabled r = Some True) (config_table env))"
  shows "fst (monitor_all_tables env h) = Inr ()"
proof -
  from assms(1) have ok: "\<And>h c. raises env h c = None" by (simp add: quiet_def)
  from group_rows_good [OF assms(1) assms(3), of "[]"] obtain g where
    g: "group_rows env
          (map frame_of (filter (\<lambda>r. is_enabled r = Some True) (config_table env))) [] = Inr g"
    and good: "\<forall>item \<in> set g. fst item \<noteq> None \<and> (\<forall>f \<in> set (snd item). returns_always f)"
    by auto
  have frame: "\<And>h'. load_frame env h' =
      (Inr (map frame_of (filter (\<lambda>r. is_enabled r = Some True) (config_table env))),
       [ReadSql config_query, ConnClose])"
    by (intro load_frame_query_ok) (simp_all add: ok)
  have load: "\<And>h'. load_config_from_snowflake env h'
      = (Inr g, [connect_call env, ReadSql config_query, ConnClose])"
    by (simp add: load_config_from_snowflake_def seq_ext_ok ok
        seq_ok [where m = "load_frame env", OF frame] g ret_def)
  have loop: "\<And>h'. fst (for_each (process_table env) g h') = Inr ()"
    using good by (intro for_each_returns process_table_returns [OF assms(1,2)]) auto
  show ?thesis
    by (simp add: monitor_all_tables_def seq_ext_ok ok
        seq_ok [where m = "load_config_from_snowflake env", OF load] loop)
qed

text \<open>
  X2. When the lookup of the check on the validator raises, the closure raises that
  exception and invokes nothing.
\<close>

theorem missing_check_raises:
  assumes "raises env h (GetAttr v name) = Some e"
  shows "build_expectation_function env (Some name) cname params v h = (Inl e, [GetAttr v name])"
  using assms by (simp add: build_expectation_function_def seq_def ext_def)

text \<open>
  X3. When the parameter blob is truthy and not a JSON object, the closure looks the
  check up, then raises \<^verbatim>\<open>TypeError\<close> and invokes nothing.
\<close>

theorem non_mapping_blob_raises:
  assumes "\<not> unpackable params" and "raises env h (GetAttr v name) = None"
  shows "build_expectation_function env (Some name) cname params v h
           = (Inl not_a_mapping, [GetAttr v name])"
  using assms
  by (cases params)
    (simp_all add: build_expectation_function_def seq_ext_ok full_params_def unpackable_def
      raise_exn_def)

text \<open>
  X4. When the query returns and the loop over the rows it gives raises (as when the
  parameter blob of an enabled row is not read by \<^verbatim>\<open>json.loads\<close>), the loader raises that
  exception: the fallback rows stand in for a failed query only.
\<close>

theorem malformed_blob_propagates:
  assumes "raises env h (connect_call env) = None"
      and "raises env (h @ [connect_call env]) (ReadSql config_query) = None"
      and "raises env (h @ [connect_call env, ReadSql config_query]) ConnClose = None"
      and "group_rows env
             (map frame_of (filter (\<lambda>r. is_enabled r = Some True) (config_table env))) []
           = Inl e"
  shows "load_config_from_snowflake env h
           = (Inl e, [connect_call env, ReadSql config_query, ConnClose])"
proof -
  have frame: "load_frame env (h @ [connect_call env]) =
           (Inr (map frame_of (filter (\<lambda>r. is_enabled r = Some True) (config_table env))),
            [ReadSql config_query, ConnClose])"
    using assms(2,3) by (intro load_frame_query_ok) simp_all
  show ?thesis
    using assms(1,4)
    by (simp add: load_config_from_snowflake_def seq_ext_ok
        seq_ok [where m = "load_frame env", OF frame] raise_exn_def)
qed

text \<open>
  X5. An exception of the query that is not an \<^verbatim>\<open>Exception\<close> is not caught: the
  connection is closed, no message is printed, no fallback is used, and the loader raises
  it.
\<close>

theorem interrupt_is_not_caught:
  assumes "raises env h (connect_call env) = None"
      and "raises env (h @ [connect_call env]) (ReadSql config_query) = Some (BaseExc c m)"
      and "raises env (h @ [connect_call env, ReadSql config_query]) ConnClose = None"
  shows "load_config_from_snowflake env h
           = (Inl (BaseExc c m), [connect_call env, ReadSql config_query, ConnClose])"
proof -
  have frame: "load_frame env (h @ [connect_call env]) =
           (Inl (BaseExc c m), [ReadSql config_query, ConnClose])"
    using assms(2,3)
    by (simp add: load_frame_def try_finally_def try_except_def read_sql_def seq_def ext_def)
  show ?thesis
    using assms(1)
    by (simp add: load_config_from_snowflake_def seq_ext_ok
        seq_fail [where m = "load_frame env", OF frame])
qed

theorem quiet_run_completes_witness:
  "quiet quiet_env
   \<and> getenv quiet_env ''SNOWFLAKE_SCHEMA'' = Some ''PUBLIC''
   \<and> list_all (translatable quiet_env)
        (filter (\<lambda>r. is_enabled r = Some True) (config_table quiet_env))
   \<and> fst (monitor_all_tables quiet_env []) = Inr ()"
proof -
  have a: "quiet quiet_env"
    by (simp add: quiet_def quiet_env_def demo_env_def)
  have b: "getenv quiet_env ''SNOWFLAKE_SCHEMA'' = Some ''PUBLIC''"
    by (simp add: quiet_env_def demo_env_def demo_getenv_def)
  have rows: "config_table quiet_env = demo_table"
    by (simp add: quiet_env_def demo_env_def)
  have j: "json_loads quiet_env = demo_json_loads"
    by (simp add: quiet_env_def demo_env_def)
  have c: "list_all (translatable quiet_env)
             (filter (\<lambda>r. is_enabled r = Some True) (config_table quiet_env))"
    by (simp add: rows demo_enabled_rows translatable_def j demo_json_loads_def
        json_literals_differ unpackable_def)
  from quiet_run_completes [OF a b c, of "[]"] a b c show ?thesis by simp
qed

theorem missing_check_raises_witness:
  "raises no_such_check_env [] (GetAttr demo_validator ''expect_nothing'')
     = Some (Exc ''AttributeError'' ''Validator has no attribute expect_nothing'')
   \<and> build_expectation_function no_such_check_env (Some ''expect_nothing'') (Some ''ID'')
        (PDict []) demo_validator []
     = (Inl (Exc ''AttributeError'' ''Validator has no attribute expect_nothing''),
        [GetAttr demo_validator ''expect_nothing''])"
proof -
  have a: "raises no_such_check_env [] (GetAttr demo_validator ''expect_nothing'')
     = Some (Exc ''AttributeError'' ''Validator has no attribute expect_nothing'')"
    by (simp add: no_such_check_env_def demo_env_def)
  from missing_check_raises [OF a, of "Some ''ID''" "PDict []"] a show ?thesis by simp
qed

theorem non_mapping_blob_raises_witness:
  "\<not> unpackable (PList [PInt 1])
   \<and> raises demo_env [] (GetAttr demo_validator ''expect_column_values_to_not_be_null'') = None
   \<and> build_expectation_function demo_env (Some ''expect_column_values_to_not_be_null'')
        (Some ''ID'') (PList [PInt 1]) demo_validator []
     = (Inl not_a_mapping, [GetAttr demo_validator ''expect_column_values_to_not_be_null''])"
proof -
  have a: "\<not> unpackable (PList [PInt 1])"
    by (simp add: unpackable_def)
  have b: "raises demo_env [] (GetAttr demo_validator ''expect_column_values_to_not_be_null'')
             = None"
    by (simp add: demo_env_simps demo_raises_def)
  from non_mapping_blob_raises [OF a b, of "Some ''ID''"] a b show ?thesis by simp
qed

theorem malformed_blob_propagates_witness:
  "group_rows malformed_env
     (map frame_of (filter (\<lambda>r. is_enabled r = Some True) (config_table malformed_env))) []
     = Inl (Exc ''JSONDecodeError'' ''Expecting value'')
   \<and> load_config_from_snowflake malformed_env [GetContext]
     = (Inl (Exc ''JSONDecodeError'' ''Expecting value''),
        [connect_call malformed_env, ReadSql config_query, ConnClose])"
proof -
  have r: "\<And>h c. raises malformed_env h c = demo_raises h c"
    by (simp add: malformed_env_def demo_env_def)
  have a: "raises malformed_env [GetContext] (connect_call malformed_env) = None"
    by (simp add: r demo_raises_def connect_call_def)
  have b: "raises malformed_env ([GetContext] @ [connect_call malformed_env])
             (ReadSql config_query) = None"
    by (simp add: r demo_raises_def)
  have c: "raises malformed_env ([GetContext] @ [connect_call malformed_env, ReadSql config_query])
             ConnClose = None"
    by (simp add: r demo_raises_def)
  have d: "group_rows malformed_env
     (map frame_of (filter (\<lambda>r. is_enabled r = Some True) (config_table malformed_env))) []
     = Inl (Exc ''JSONDecodeError'' ''Expecting value'')"
    by (simp add: malformed_env_def demo_env_def frame_of_def row_get_def
        row_params_def demo_json_loads_def between_params_json_def compound_params_json_def
        quoted_def)
  from malformed_blob_propagates [OF a b c d] d show ?thesis by simp
qed

theorem interrupt_is_not_caught_witness:
  "raises interrupted_env [GetContext, connect_call interrupted_env] (ReadSql config_query)
     = Some (BaseExc ''KeyboardInterrupt'' [])
   \<and> load_config_from_snowflake interrupted_env [GetContext]
     = (Inl (BaseExc ''KeyboardInterrupt'' []),
        [connect_call interrupted_env, ReadSql config_query, ConnClose])"
proof -
  have r: "\<And>h c. raises interrupted_env h c =
      (case c of ReadSql q \<Rightarrow> Some (BaseExc ''KeyboardInterrupt'' []) | _ \<Rightarrow> None)"
    by (simp add: interrupted_env_def demo_env_def)
  have a: "raises interrupted_env [GetContext] (connect_call interrupted_env) = None"
    by (simp add: r connect_call_def)
  have b: "raises interrupted_env ([GetContext] @ [connect_call interrupted_env])
             (ReadSql config_query) = Some (BaseExc ''KeyboardInterrupt'' [])"
    by (simp add: r)
  have c: "raises interrupted_env
             ([GetContext] @ [connect_call interrupted_env, ReadSql config_query])
             ConnClose = None"
    by (simp add: r)
  from interrupt_is_not_caught [OF a b c] b show ?thesis by simp
qed

end
